theory Spec2Isabelle
  imports Complex_Main
begin

section \<open>Array values\<close>

text \<open>
  The arrays of \<^verbatim>\<open>gdal_viirs/process.py\<close> hold IEEE floating-point numbers. A value is
  NaN, one of the two infinities, or finite: \<open>Fin a\<close> is the number \<open>a\<close>, with \<open>Fin 0\<close> for
  \<open>+0.0\<close>, and \<open>NZero\<close> is \<open>-0.0\<close>. The special values follow IEEE 754 as numpy applies it
  (a warning is printed, no exception is raised): \<open>x / 0\<close> is an infinity for \<open>x \<noteq> 0\<close>, with
  the sign of \<open>x\<close> reversed for a negative zero; \<open>0 / 0\<close>, \<open>inf - inf\<close>, \<open>0 * inf\<close> and
  \<open>inf / inf\<close> are NaN; every comparison with NaN is false; a zero result carries the sign
  that IEEE 754 gives it. The arithmetic of finite values is exact: rounding to
  float32/float64 and the overflow of a finite result to an infinity are not part of the
  model.
\<close>

datatype fl = NaN | NInf | Fin rat | NZero | PInf

fun isnan :: "fl \<Rightarrow> bool" where
  "isnan NaN = True"
| "isnan _ = False"

fun isinf :: "fl \<Rightarrow> bool" where
  "isinf NInf = True"
| "isinf PInf = True"
| "isinf _ = False"

fun isfinite :: "fl \<Rightarrow> bool" where
  "isfinite (Fin _) = True"
| "isfinite NZero = True"
| "isfinite _ = False"

text \<open>The number that a finite value stands for (\<open>0\<close> for the others).\<close>

fun fval :: "fl \<Rightarrow> rat" where
  "fval (Fin a) = a"
| "fval _ = 0"

definition is_zero :: "fl \<Rightarrow> bool" where
  "is_zero a = (isfinite a \<and> fval a = 0)"

text \<open>The sign bit.\<close>

fun signbit :: "fl \<Rightarrow> bool" where
  "signbit NInf = True"
| "signbit NZero = True"
| "signbit (Fin a) = (a < 0)"
| "signbit _ = False"

definition signed_zero :: "bool \<Rightarrow> fl" where
  "signed_zero neg = (if neg then NZero else Fin 0)"

definition signed_inf :: "bool \<Rightarrow> fl" where
  "signed_inf neg = (if neg then NInf else PInf)"

text \<open>A finite result: the number, and the sign to use when the number is zero.\<close>

definition finite_result :: "bool \<Rightarrow> rat \<Rightarrow> fl" where
  "finite_result neg a = (if a = 0 then signed_zero neg else Fin a)"

fun fneg :: "fl \<Rightarrow> fl" where
  "fneg NaN = NaN"
| "fneg NInf = PInf"
| "fneg PInf = NInf"
| "fneg NZero = Fin 0"
| "fneg (Fin a) = (if a = 0 then NZero else Fin (- a))"

text \<open>
  A sum that is zero is \<open>-0.0\<close> only when both terms are negative zeros; \<open>x + (-x)\<close> is
  \<open>+0.0\<close>.
\<close>

definition fadd :: "fl \<Rightarrow> fl \<Rightarrow> fl" where
  "fadd a b =
     (if isnan a \<or> isnan b then NaN
      else if isinf a \<and> isinf b then (if a = b then a else NaN)
      else if isinf a then a
      else if isinf b then b
      else finite_result (signbit a \<and> signbit b) (fval a + fval b))"

definition fsub :: "fl \<Rightarrow> fl \<Rightarrow> fl" where
  "fsub a b = fadd a (fneg b)"

definition fmul :: "fl \<Rightarrow> fl \<Rightarrow> fl" where
  "fmul a b =
     (if isnan a \<or> isnan b then NaN
      else if (isinf a \<and> is_zero b) \<or> (is_zero a \<and> isinf b) then NaN
      else if isinf a \<or> isinf b then signed_inf (signbit a \<noteq> signbit b)
      else finite_result (signbit a \<noteq> signbit b) (fval a * fval b))"

definition fdiv :: "fl \<Rightarrow> fl \<Rightarrow> fl" where
  "fdiv a b =
     (if isnan a \<or> isnan b then NaN
      else if isinf a \<and> isinf b then NaN
      else if isinf a then signed_inf (signbit a \<noteq> signbit b)
      else if isinf b then signed_zero (signbit a \<noteq> signbit b)
      else if is_zero b then (if is_zero a then NaN else signed_inf (signbit a \<noteq> signbit b))
      else finite_result (signbit a \<noteq> signbit b) (fval a / fval b))"

text \<open>Comparisons: both zeros are equal, and NaN compares false with everything.\<close>

definition flt :: "fl \<Rightarrow> fl \<Rightarrow> bool" where
  "flt a b =
     (if isnan a \<or> isnan b then False
      else if a = PInf \<or> b = NInf then False
      else if a = NInf \<or> b = PInf then True
      else fval a < fval b)"

definition fgt :: "fl \<Rightarrow> fl \<Rightarrow> bool" where
  "fgt a b = flt b a"


section \<open>NDVI\<close>



section \<open>NDVI dynamics\<close>

text \<open>
  Boolean-mask indexing \<^verbatim>\<open>a[mask]\<close> selects the elements at the true positions, in
  order; \<^verbatim>\<open>a[mask] = values\<close> writes the values, in order, to the true positions;
  \<^verbatim>\<open>a[mask] = c\<close> writes one constant to them.
\<close>

fun mask_select :: "'a list \<Rightarrow> bool list \<Rightarrow> 'a list" where
  "mask_select (x # xs) (m # ms) = (if m then x # mask_select xs ms else mask_select xs ms)"
| "mask_select _ _ = []"

fun mask_assign :: "'a list \<Rightarrow> bool list \<Rightarrow> 'a list \<Rightarrow> 'a list" where
  "mask_assign (x # xs) (True # ms) (v # vs) = v # mask_assign xs ms vs"
| "mask_assign (x # xs) (False # ms) vs = x # mask_assign xs ms vs"
| "mask_assign xs _ _ = xs"

fun mask_fill :: "'a list \<Rightarrow> bool list \<Rightarrow> 'a \<Rightarrow> 'a list" where
  "mask_fill (x # xs) (m # ms) c = (if m then c else x) # mask_fill xs ms c"
| "mask_fill xs _ _ = xs"



text \<open>
  The same band pixel by pixel: \<open>-999\<close> where either input is the cloud sentinel, else
  NaN where either input is NaN, else the relative change in percent after the two
  replacements of \<^verbatim>\<open>calc_ndvi_dynamics\<close>.
\<close>

definition clamp_dynamics :: "fl \<Rightarrow> fl" where
  "clamp_dynamics d = (if fgt d (Fin 998) then Fin 998 else if flt d (Fin (- 998)) then Fin (- 998) else d)"


section \<open>Errors\<close>

text \<open>
  The exceptions that the modelled functions raise: Python's own \<^verbatim>\<open>AssertionError\<close>
  (a failed \<^verbatim>\<open>assert\<close>), \<^verbatim>\<open>AttributeError\<close> and \<^verbatim>\<open>StopIteration\<close>, \<^verbatim>\<open>ValueError\<close> and \<^verbatim>\<open>IndexError\<close> (raised
  by numpy), and the classes of \<^verbatim>\<open>gdal_viirs.exceptions\<close>.
\<close>

datatype error =
    AssertionError
  | AttributeError
  | ValueError
  | IndexError
  | StopIteration
  | SubDatasetNotFound
  | InvalidData
  | CorruptedFile
  | ProcessingException

section \<open>The geolocation indexer\<close>

text \<open>
  \<^verbatim>\<open>GeofileInfo\<close> describes one input file; only the fields that the modelled functions
  read are kept. What \<^verbatim>\<open>rasterio\<close> reads from a geolocation file is a record of its own:
  the \<^verbatim>\<open>/Latitude\<close> and \<^verbatim>\<open>/Longitude\<close> sub-datasets, \<open>None\<close> when the file has no such
  sub-dataset, each array as the list of its pixels in row-major order (masking an
  array with a boolean array flattens it in that order anyway).
\<close>

record GeofileInfo =
  path :: string
  is_geoloc :: bool
  is_band :: bool
  band :: string

record geoloc_datasets =
  Latitude :: "fl list option"
  Longitude :: "fl list option"

text \<open>
  \<^verbatim>\<open>np.round\<close> rounds to the nearest integer, halves to the even neighbour, keeps the
  sign of a result that is zero and leaves infinities and NaN as they are.
\<close>

definition rint :: "rat \<Rightarrow> int" where
  "rint a =
     (let f = \<lfloor>a\<rfloor>; d = a - of_int f
      in if d < 1 / 2 then f else if 1 / 2 < d then f + 1 else if even f then f else f + 1)"

fun np_round :: "fl \<Rightarrow> fl" where
  "np_round (Fin a) = finite_result (a < 0) (of_int (rint a))"
| "np_round v = v"

text \<open>
  \<^verbatim>\<open>np.int_\<close> casts to a 64-bit integer: a finite value is truncated towards zero, and a
  value whose truncation lies outside \<open>[-2^63, 2^63)\<close>, an infinity or NaN becomes \<open>-2^63\<close>
  (the result of the conversion instruction of x86-64). Integer arrays are 64-bit:
  \<open>wrap64\<close> is the value that a sum or difference has after it wrapped around.
\<close>

definition trunc :: "rat \<Rightarrow> int" where
  "trunc a = (if a < 0 then - \<lfloor>- a\<rfloor> else \<lfloor>a\<rfloor>)"

fun np_int :: "fl \<Rightarrow> int" where
  "np_int (Fin a) = (if - (2 ^ 63) \<le> trunc a \<and> trunc a < 2 ^ 63 then trunc a else - (2 ^ 63))"
| "np_int NZero = 0"
| "np_int _ = - (2 ^ 63)"

definition wrap64 :: "int \<Rightarrow> int" where
  "wrap64 v = (v + 2 ^ 63) mod 2 ^ 64 - 2 ^ 63"

text \<open>\<^verbatim>\<open>a.min()\<close> and \<^verbatim>\<open>a.max()\<close> raise \<^verbatim>\<open>ValueError\<close> on an array without elements.\<close>

definition np_min :: "int list \<Rightarrow> error + int" where
  "np_min xs = (if xs = [] then Inl ValueError else Inr (Min (set xs)))"

definition np_max :: "int list \<Rightarrow> error + int" where
  "np_max xs = (if xs = [] then Inl ValueError else Inr (Max (set xs)))"

record ProcessedGeolocFile =
  x_index :: "int list"
  y_index :: "int list"
  lonlat_mask :: "bool list"
  geotransform_max_y :: int
  geotransform_min_x :: int
  projection :: "fl \<Rightarrow> fl \<Rightarrow> fl \<times> fl"
  scale :: fl
  out_image_shape :: "int \<times> int"

text \<open>
  The second half of \<^verbatim>\<open>process_geoloc_file\<close>, from the rounded coordinates on: the two
  geotransform anchors, the division by the scale (\<^verbatim>\<open>np.int_(np.round(x_index / scale))\<close>,
  a true division of an integer array by a number), the shift of both axes to zero
  (\<^verbatim>\<open>x_index -= x_index.min()\<close>, in 64-bit integers) and the shape of the output image.
\<close>

definition scaled :: "fl \<Rightarrow> int \<Rightarrow> int" where
  "scaled sc v = np_int (np_round (fdiv (Fin (of_int v)) sc))"

definition index_arrays ::
  "(fl \<Rightarrow> fl \<Rightarrow> fl \<times> fl) \<Rightarrow> fl \<Rightarrow> bool list \<Rightarrow> int list \<Rightarrow> int list \<Rightarrow> error + ProcessedGeolocFile" where
  "index_arrays proj sc msk xs ys =
     (case np_min xs of Inl e \<Rightarrow> Inl e | Inr x_min \<Rightarrow>
     (case np_max ys of Inl e \<Rightarrow> Inl e | Inr y_max \<Rightarrow>
      (let xs = map (scaled sc) xs;
           ys = map (scaled sc) ys
       in
      (case np_min xs of Inl e \<Rightarrow> Inl e | Inr x0 \<Rightarrow>
      (let xs = map (\<lambda>v. wrap64 (v - x0)) xs in
      (case np_min ys of Inl e \<Rightarrow> Inl e | Inr y0 \<Rightarrow>
      (let ys = map (\<lambda>v. wrap64 (v - y0)) ys in
      (case np_max ys of Inl e \<Rightarrow> Inl e | Inr y1 \<Rightarrow>
      (case np_max xs of Inl e \<Rightarrow> Inl e | Inr x1 \<Rightarrow>
       Inr \<lparr> x_index = xs, y_index = ys, lonlat_mask = msk,
             geotransform_max_y = y_max, geotransform_min_x = x_min,
             projection = proj, scale = sc,
             out_image_shape = (wrap64 (y1 + 1), wrap64 (x1 + 1)) \<rparr>)))))))))"

text \<open>
  \<^verbatim>\<open>process_geoloc_file\<close>. The projection is the \<^verbatim>\<open>pyproj.Proj\<close> object, a collaborator
  that maps each (longitude, latitude) pair to planar (x, y); it is a parameter. The two
  arrays of one file have the same shape; for lists of different lengths the product of
  the two comparisons cannot be formed and numpy raises \<^verbatim>\<open>ValueError\<close>.
  The validity mask is \<^verbatim>\<open>(lon > -200) * (lat > -200)\<close>.
  Both assertions on finiteness test \<^verbatim>\<open>x_index\<close>, as in the source
  (\<^verbatim>\<open>assert np.all(np.isfinite(x_index)), 'y_index contains non-finite numbers'\<close>).
\<close>

definition lonlat_valid :: "fl \<Rightarrow> fl \<Rightarrow> bool" where
  "lonlat_valid lo la = (fgt lo (Fin (- 200)) \<and> fgt la (Fin (- 200)))"

definition process_geoloc_file ::
  "(fl \<Rightarrow> fl \<Rightarrow> fl \<times> fl) \<Rightarrow> GeofileInfo \<Rightarrow> geoloc_datasets \<Rightarrow> fl \<Rightarrow> error + ProcessedGeolocFile" where
  "process_geoloc_file proj geofile f sc =
     (if \<not> is_geoloc geofile then Inl AssertionError
      else
       (case Latitude f of None \<Rightarrow> Inl SubDatasetNotFound | Some lat \<Rightarrow>
       (case Longitude f of None \<Rightarrow> Inl SubDatasetNotFound | Some lon \<Rightarrow>
        if length lon \<noteq> length lat then Inl ValueError
        else
         (let msk = map2 lonlat_valid lon lat;
              lat_masked = mask_select lat msk;
              lon_masked = mask_select lon msk;
              xy = map2 proj lon_masked lat_masked;
              xs = map fst xy;
              ys = map snd xy
          in if length xs \<noteq> length ys then Inl AssertionError
             else if \<not> list_all isfinite xs then Inl AssertionError
             else if \<not> list_all isfinite xs then Inl AssertionError
             else index_arrays proj sc msk (map (\<lambda>v. np_int (np_round v)) xs)
                    (map (\<lambda>v. np_int (np_round v)) ys)))))"

text \<open>
  The scaled coordinates of one pixel, as the lines up to \<^verbatim>\<open>np.int_(np.round(x_index / scale))\<close>
  compute them, before the shift to zero.
\<close>

definition scaled_xy :: "(fl \<Rightarrow> fl \<Rightarrow> fl \<times> fl) \<Rightarrow> fl \<Rightarrow> fl \<Rightarrow> fl \<Rightarrow> int \<times> int" where
  "scaled_xy proj sc lo la =
     (scaled sc (np_int (np_round (fst (proj lo la)))),
      scaled sc (np_int (np_round (snd (proj lo la)))))"

text \<open>
  A projection to evaluate the indexer with: the equirectangular one, 100 km to a degree.
\<close>

definition equirect :: "fl \<Rightarrow> fl \<Rightarrow> fl \<times> fl" where
  "equirect lo la = (fmul (Fin 100000) lo, fmul (Fin 100000) la)"

text \<open>A geolocation file descriptor to evaluate the indexer with.\<close>

definition sample_geofile :: GeofileInfo where
  "sample_geofile = \<lparr> path = ''GIMGO_npp.h5'', is_geoloc = True, is_band = False, band = ''I'' \<rparr>"

text \<open>
  Four pixels of a geolocation file; the third carries the fill value \<open>-999.3\<close> instead of
  a latitude.
\<close>

definition sample_latlon :: geoloc_datasets where
  "sample_latlon =
     \<lparr> Latitude = Some [Fin 50, Fin (5003 / 100), Fin (- 9993 / 10), Fin (1001 / 20)],
       Longitude = Some [Fin 80, Fin (8001 / 100), Fin 80, Fin (1601 / 20)] \<rparr>"

text \<open>
  Four more geolocation files: one with a single pixel, one whose only pixel carries the
  fill value in both arrays, and two with an infinite longitude or latitude.
\<close>

definition single_pixel_latlon :: geoloc_datasets where
  "single_pixel_latlon = \<lparr> Latitude = Some [Fin 50], Longitude = Some [Fin 80] \<rparr>"

definition fill_only_latlon :: geoloc_datasets where
  "fill_only_latlon = \<lparr> Latitude = Some [Fin (- 9993 / 10)], Longitude = Some [Fin (- 9993 / 10)] \<rparr>"

definition inf_lon_latlon :: geoloc_datasets where
  "inf_lon_latlon = \<lparr> Latitude = Some [Fin 50, Fin 51], Longitude = Some [Fin 80, PInf] \<rparr>"

definition inf_lat_latlon :: geoloc_datasets where
  "inf_lat_latlon = \<lparr> Latitude = Some [Fin 50, PInf], Longitude = Some [Fin 80, Fin 81] \<rparr>"

text \<open>
  Two pixels at longitudes 10 and 100, which the projection above takes to \<open>x = 10^6\<close> and
  \<open>x = 10^7\<close>; with the scale \<open>10^-12\<close> the second scaled coordinate, \<open>10^19\<close>, is beyond
  64 bits.
\<close>

definition wide_latlon :: geoloc_datasets where
  "wide_latlon = \<lparr> Latitude = Some [Fin 50, Fin 50], Longitude = Some [Fin 10, Fin 100] \<rparr>"

section \<open>The band rasterizer: scatter\<close>

text \<open>
  A two-dimensional array: its shape and its cells in row-major order, so that the cell
  in row \<open>r\<close> and column \<open>c\<close> is at position \<open>r * cols + c\<close>.
\<close>

record ndarray =
  rows :: nat
  cols :: nat
  cells :: "fl list"

definition shape :: "ndarray \<Rightarrow> nat \<times> nat" where
  "shape a = (rows a, cols a)"

definition np_full :: "nat \<times> nat \<Rightarrow> fl \<Rightarrow> ndarray" where
  "np_full s v = \<lparr> rows = fst s, cols = snd s, cells = replicate (fst s * snd s) v \<rparr>"

definition np_zeros :: "nat \<times> nat \<Rightarrow> ndarray" where
  "np_zeros s = np_full s (Fin 0)"

definition cell :: "ndarray \<Rightarrow> nat \<Rightarrow> nat \<Rightarrow> fl" where
  "cell a r c = cells a ! (r * cols a + c)"

text \<open>
  An index along an axis of length \<open>n\<close>: numpy counts a negative index from the end and
  raises \<^verbatim>\<open>IndexError\<close> outside \<open>[-n, n)\<close>.
\<close>

definition np_index :: "nat \<Rightarrow> int \<Rightarrow> error + nat" where
  "np_index n i =
     (if 0 \<le> i \<and> i < int n then Inr (nat i)
      else if - int n \<le> i \<and> i < 0 then Inr (nat (i + int n))
      else Inl IndexError)"

definition put :: "ndarray \<Rightarrow> int \<Rightarrow> int \<Rightarrow> fl \<Rightarrow> error + ndarray" where
  "put a y x v =
     (case np_index (rows a) y of Inl e \<Rightarrow> Inl e | Inr r \<Rightarrow>
     (case np_index (cols a) x of Inl e \<Rightarrow> Inl e | Inr c \<Rightarrow>
        Inr (a\<lparr> cells := (cells a)[r * cols a + c := v] \<rparr>)))"

text \<open>
  \<^verbatim>\<open>image[y_index, x_index] = arr\<close>: the samples are written one after the other, in the
  order of the arrays, each to the cell that its pair of indices names. (numpy's
  documentation leaves the order of an assignment with repeated indices open; its
  implementation iterates in this order.)
\<close>

fun scatter :: "ndarray \<Rightarrow> int list \<Rightarrow> int list \<Rightarrow> fl list \<Rightarrow> error + ndarray" where
  "scatter a (y # ys) (x # xs) (v # vs) =
     (case put a y x v of Inl e \<Rightarrow> Inl e | Inr a' \<Rightarrow> scatter a' ys xs vs)"
| "scatter a _ _ _ = Inr a"

text \<open>
  \<^verbatim>\<open>process_band_file\<close> from the masking of the samples to the scatter (the array
  \<^verbatim>\<open>arr\<close> is the band as read, already converted to floating point): the samples at the
  validity mask (\<^verbatim>\<open>IndexError\<close> when the mask has another shape), the assertions on
  the shapes and on the image shape (\<^verbatim>\<open>'image must be at least 2x2'\<close>), the image of
  zeros and the scatter.
\<close>

definition process_band_file_scatter :: "ProcessedGeolocFile \<Rightarrow> fl list \<Rightarrow> error + ndarray" where
  "process_band_file_scatter geoloc_file arr =
     (if length arr \<noteq> length (lonlat_mask geoloc_file) then Inl IndexError
      else
       (let arr = mask_select arr (lonlat_mask geoloc_file);
            image_shape = out_image_shape geoloc_file
        in if length (x_index geoloc_file) \<noteq> length arr then Inl AssertionError
           else if length (y_index geoloc_file) \<noteq> length arr then Inl AssertionError
           else if \<not> (1 < fst image_shape \<and> 1 < snd image_shape) then Inl AssertionError
           else scatter (np_zeros (nat (fst image_shape), nat (snd image_shape)))
                  (y_index geoloc_file) (x_index geoloc_file) arr))"

section \<open>The composite assembler\<close>

text \<open>
  \<^verbatim>\<open>_process_band_files\<close>. The rasterizer \<^verbatim>\<open>process_band_file\<close> reads the band file and
  fills gaps through \<^verbatim>\<open>rasterio\<close>; here it is the parameter \<open>pbf\<close>, which returns a band
  grid or raises. Any exception of it is caught (\<^verbatim>\<open>except Exception\<close>) and recorded as
  \<^verbatim>\<open>None\<close>. The assertion on the shapes is the one of the source,
  \<^verbatim>\<open>assert len(set(v.shape for v in arrays if v is not None))\<close>: it holds when the set
  of shapes is not empty. \<^verbatim>\<open>np.array\<close> stacks grids of one shape; what it does with
  grids of different shapes depends on the version of numpy (\<^verbatim>\<open>ValueError\<close>, or an array
  of objects) and is the parameter \<open>ragged\<close>.
\<close>

fun first_shape :: "ndarray option list \<Rightarrow> error + nat \<times> nat" where
  "first_shape [] = Inl StopIteration"
| "first_shape (None # vs) = first_shape vs"
| "first_shape (Some v # vs) = Inr (shape v)"

definition np_array ::
  "(ndarray list \<Rightarrow> error + ndarray list) \<Rightarrow> ndarray list \<Rightarrow> error + ndarray list" where
  "np_array ragged arrays =
     (if card (set (map shape arrays)) \<le> 1 then Inr arrays else ragged arrays)"

definition process_band_files ::
  "(GeofileInfo \<Rightarrow> ProcessedGeolocFile \<Rightarrow> error + ndarray) \<Rightarrow>
   (ndarray list \<Rightarrow> error + ndarray list) \<Rightarrow> ProcessedGeolocFile \<Rightarrow>
   GeofileInfo list \<Rightarrow> error + ndarray list" where
  "process_band_files pbf ragged geoloc_file files =
     (if \<not> 0 < length files then Inl AssertionError
      else if card (set (map band files)) \<noteq> 1 then Inl AssertionError
      else
       (let arrays = map (\<lambda>file. case pbf file geoloc_file of
                                    Inl e \<Rightarrow> None | Inr arr \<Rightarrow> Some arr) files
        in if list_all (\<lambda>v. v = None) arrays then Inl ProcessingException
           else if card (set (map shape (List.map_filter id arrays))) = 0 then Inl AssertionError
           else
            (case first_shape arrays of Inl e \<Rightarrow> Inl e | Inr s \<Rightarrow>
               np_array ragged
                 (map (\<lambda>v. case v of None \<Rightarrow> np_full s NaN | Some arr \<Rightarrow> arr) arrays))))"

text \<open>
  Inputs to evaluate the assembler with: an index with a \<open>2 \<times> 2\<close> image, band files
  by name and band, a rasterizer that fails on \<^verbatim>\<open>SVI02.h5\<close> and returns a \<open>2 \<times> 2\<close> grid
  for any other file, and \<^verbatim>\<open>np.array\<close> as numpy 1.24 has it.
\<close>

definition sample_geoloc :: ProcessedGeolocFile where
  "sample_geoloc =
     \<lparr> x_index = [0, 1], y_index = [0, 1], lonlat_mask = [True, True],
       geotransform_max_y = 5000000, geotransform_min_x = 8000000,
       projection = equirect, scale = Fin 2000, out_image_shape = (2, 2) \<rparr>"

definition band_file :: "string \<Rightarrow> string \<Rightarrow> GeofileInfo" where
  "band_file name b = \<lparr> path = name, is_geoloc = False, is_band = True, band = b \<rparr>"

definition sample_pbf :: "GeofileInfo \<Rightarrow> ProcessedGeolocFile \<Rightarrow> error + ndarray" where
  "sample_pbf file geoloc_file =
     (if path file = ''SVI02.h5'' then Inl CorruptedFile
      else Inr (np_full (2, 2) (Fin 1)))"

definition sample_ragged :: "ndarray list \<Rightarrow> error + ndarray list" where
  "sample_ragged arrays = Inl ValueError"

section \<open>The batch driver\<close>

record ViirsFileset =
  geoloc_file :: GeofileInfo
  band_files :: "GeofileInfo list"

text \<open>
  What \<^verbatim>\<open>process_recent_files\<close> does that can be observed: the messages it logs and
  the calls of \<^verbatim>\<open>_process_fileset\<close>.
\<close>

datatype event =
    LogFound nat
  | LogNotFound
  | LogAlreadyInDb ViirsFileset
  | CallProcessFileset ViirsFileset
  | LogException error

text \<open>
  Modelled from the spec: the persistence store \<^verbatim>\<open>GDALViirsDB\<close>
  (\<^verbatim>\<open>gdal_viirs.persistence.db\<close>), of which the driver uses \<^verbatim>\<open>has_fileset\<close>,
  \<^verbatim>\<open>add_fileset\<close> and \<^verbatim>\<open>set_meta('last_check_time', ...)\<close>. The store remembers the
  file sets that were processed and the time of the last check.
\<close>

record driver =
  db_filesets :: "ViirsFileset list"
  last_check_time :: "rat option"
  events :: "event list"

definition has_fileset :: "driver \<Rightarrow> ViirsFileset \<Rightarrow> bool" where
  "has_fileset st fileset = (fileset \<in> set (db_filesets st))"

definition add_fileset :: "driver \<Rightarrow> ViirsFileset \<Rightarrow> driver" where
  "add_fileset st fileset =
     (if has_fileset st fileset then st else st\<lparr> db_filesets := db_filesets st @ [fileset] \<rparr>)"

definition emit :: "driver \<Rightarrow> event \<Rightarrow> driver" where
  "emit st ev = st\<lparr> events := events st @ [ev] \<rparr>"

text \<open>
  \<^verbatim>\<open>_process_fileset\<close>: the processing proper (the calls into the module \<^verbatim>\<open>process\<close>
  that write the composite and, for band \<^verbatim>\<open>I\<close>, the NDVI) is the parameter \<open>work\<close>, \<open>None\<close>
  when it completes and the exception when it raises; after it the file set is recorded
  in the store. With \<^verbatim>\<open>process.py\<close> as it is, the first call,
  \<^verbatim>\<open>process.process_fileset_out\<close>, names a function that the module does not have and
  raises \<^verbatim>\<open>AttributeError\<close> for every file set.
\<close>

definition process_fileset ::
  "(ViirsFileset \<Rightarrow> error option) \<Rightarrow> driver \<Rightarrow> ViirsFileset \<Rightarrow> error option \<times> driver" where
  "process_fileset work st fileset =
     (let st = emit st (CallProcessFileset fileset)
      in case work fileset of
           Some e \<Rightarrow> (Some e, st)
         | None \<Rightarrow> (None, add_fileset st fileset))"

text \<open>
  The loop of \<^verbatim>\<open>process_recent_files\<close>: the test of \<^verbatim>\<open>has_fileset\<close> logs a message and
  nothing else; an exception of \<^verbatim>\<open>_process_fileset\<close> is logged and ends the function
  (\<^verbatim>\<open>return\<close>). The result says whether the loop ran to its end.
\<close>

fun process_loop ::
  "(ViirsFileset \<Rightarrow> error option) \<Rightarrow> driver \<Rightarrow> ViirsFileset list \<Rightarrow> bool \<times> driver" where
  "process_loop work st [] = (True, st)"
| "process_loop work st (fileset # filesets) =
     (let st = (if has_fileset st fileset then emit st (LogAlreadyInDb fileset) else st)
      in case process_fileset work st fileset of
           (Some e, st) \<Rightarrow> (False, emit st (LogException e))
         | (None, st) \<Rightarrow> process_loop work st filesets)"

text \<open>
  \<^verbatim>\<open>process_recent_files\<close>; \<open>filesets\<close> is what \<^verbatim>\<open>find_filesets\<close> returned and \<open>now\<close> the
  time stamp that \<^verbatim>\<open>_set_last_check_time\<close> stores.
\<close>

definition process_recent_files ::
  "(ViirsFileset \<Rightarrow> error option) \<Rightarrow> rat \<Rightarrow> ViirsFileset list \<Rightarrow> driver \<Rightarrow> driver" where
  "process_recent_files work now filesets st =
     (let st = (if 0 < length filesets then emit st (LogFound (length filesets))
                else emit st LogNotFound)
      in case process_loop work st filesets of
           (False, st) \<Rightarrow> st
         | (True, st) \<Rightarrow> st\<lparr> last_check_time := Some now \<rparr>)"

text \<open>The file sets on which \<^verbatim>\<open>_process_fileset\<close> was called, in the order of the calls.\<close>

fun called :: "event list \<Rightarrow> ViirsFileset list" where
  "called [] = []"
| "called (CallProcessFileset fileset # evs) = fileset # called evs"
| "called (_ # evs) = called evs"

text \<open>
  The file sets that a run reaches: every file set up to and including the first one
  whose processing raises.
\<close>

fun reached :: "(ViirsFileset \<Rightarrow> error option) \<Rightarrow> ViirsFileset list \<Rightarrow> ViirsFileset list" where
  "reached work [] = []"
| "reached work (fileset # filesets) =
     fileset # (if work fileset = None then reached work filesets else [])"

text \<open>
  Inputs to evaluate the driver with: a file set by the name of its band file, a store
  that already records the file set \<^verbatim>\<open>SVI01.h5\<close>, and the processing that raises
  \<^verbatim>\<open>AttributeError\<close> for every file set.
\<close>

definition sample_fileset :: "string \<Rightarrow> ViirsFileset" where
  "sample_fileset name = \<lparr> geoloc_file = sample_geofile, band_files = [band_file name ''I''] \<rparr>"

definition sample_store :: driver where
  "sample_store =
     \<lparr> db_filesets = [sample_fileset ''SVI01.h5''], last_check_time = None, events = [] \<rparr>"

definition sample_work :: "ViirsFileset \<Rightarrow> error option" where
  "sample_work fileset = Some AttributeError"

section \<open>Properties of the array values\<close>

lemma fadd_Fin [simp]: "fadd (Fin a) (Fin b) = Fin (a + b)"
  by (auto simp: fadd_def finite_result_def signed_zero_def)

lemma fsub_Fin [simp]: "fsub (Fin a) (Fin b) = Fin (a - b)"
  by (auto simp: fsub_def fadd_def finite_result_def signed_zero_def)

lemma fmul_Fin: "fmul (Fin a) (Fin b) = finite_result ((a < 0) \<noteq> (b < 0)) (a * b)"
  by (simp add: fmul_def)


lemma flt_Fin [simp]: "flt (Fin a) (Fin b) = (a < b)"
  by (simp add: flt_def)

lemma isfinite_finite_result [simp]: "isfinite (finite_result neg a)"
  by (simp add: finite_result_def signed_zero_def)

lemma fval_finite_result [simp]: "fval (finite_result neg a) = a"
  by (simp add: finite_result_def signed_zero_def)


lemma isfinite_cases: "isfinite x \<Longrightarrow> x = NZero \<or> x = Fin (fval x)"
  by (cases x) simp_all






lemma is_zero_iff: "is_zero x \<longleftrightarrow> isfinite x \<and> fval x = 0"
  by (simp add: is_zero_def)

section \<open>Properties of the geolocation indexer\<close>

subsection \<open>Boolean-mask selection\<close>

lemma mask_select_filter: "mask_select xs ms = map fst (filter snd (zip xs ms))"
  by (induction xs ms rule: mask_select.induct) auto

lemma length_mask_select:
  "length xs = length ys \<Longrightarrow> length (mask_select xs ms) = length (mask_select ys ms)"
proof (induction xs ms arbitrary: ys rule: mask_select.induct)
  case (1 x xs m ms)
  then show ?case by (cases ys) auto
qed auto

lemma zip_mask_select:
  "length xs = length ys \<Longrightarrow>
   zip (mask_select xs ms) (mask_select ys ms) = mask_select (zip xs ys) ms"
proof (induction xs ms arbitrary: ys rule: mask_select.induct)
  case (1 x xs m ms)
  then show ?case by (cases ys) auto
qed auto

lemma set_mask_select:
  "set (mask_select xs ms) = {xs ! i | i. i < length xs \<and> i < length ms \<and> ms ! i}"
proof -
  have "set (mask_select xs ms) = fst ` {p \<in> set (zip xs ms). snd p}"
    by (simp add: mask_select_filter)
  also have "\<dots> = {xs ! i | i. i < length xs \<and> i < length ms \<and> ms ! i}"
    by (auto simp: set_zip image_iff) force
  finally show ?thesis .
qed

lemma mask_select_Nil_iff:
  "length ms = length xs \<Longrightarrow> mask_select xs ms = [] \<longleftrightarrow> (\<forall>i<length xs. \<not> ms ! i)"
  using set_mask_select [of xs ms] by (auto simp flip: set_empty)


lemma shifted_bounds:
  fixes zs :: "int list"
  assumes "zs \<noteq> []"
  defines "zs' \<equiv> map (\<lambda>v. v - Min (set zs)) zs"
  shows "\<forall>v\<in>set zs'. 0 \<le> v \<and> v < Max (set zs') + 1" and "Min (set zs') = 0"
proof -
  have ne: "set zs' \<noteq> {}" and fin: "finite (set zs')"
    using assms by auto
  have lower: "0 \<le> v" if "v \<in> set zs'" for v
    using that by (auto simp: zs'_def)
  have upper: "v \<le> Max (set zs')" if "v \<in> set zs'" for v
    using that fin by (rule_tac Max_ge) auto
  show "\<forall>v\<in>set zs'. 0 \<le> v \<and> v < Max (set zs') + 1"
    using lower upper by fastforce
  have "Min (set zs) \<in> set zs"
    using assms by (intro Min_in) auto
  then have "0 \<in> set zs'"
    by (force simp: zs'_def)
  then show "Min (set zs') = 0"
    using lower fin by (intro Min_eqI) auto
qed

lemma index_arrays_Nil: "index_arrays proj sc msk [] ys = Inl ValueError"
  by (simp add: index_arrays_def np_min_def)

lemma wrap64_id: "- (2 ^ 63) \<le> v \<Longrightarrow> v < 2 ^ 63 \<Longrightarrow> wrap64 v = v"
  by (simp add: wrap64_def)

lemma shift_no_wrap:
  fixes zs :: "int list"
  assumes "zs \<noteq> []" and "\<forall>v\<in>set zs. \<bar>v\<bar> < 2 ^ 61"
  shows "map (\<lambda>v. wrap64 (v - Min (set zs))) zs = map (\<lambda>v. v - Min (set zs)) zs"
    and "wrap64 (Max (set (map (\<lambda>v. v - Min (set zs)) zs)) + 1)
           = Max (set (map (\<lambda>v. v - Min (set zs)) zs)) + 1"
proof -
  let ?m = "Min (set zs)"
  let ?zs' = "map (\<lambda>v. v - ?m) zs"
  have "?m \<in> set zs"
    using assms(1) by (intro Min_in) auto
  with assms(2) have m: "\<bar>?m\<bar> < 2 ^ 61"
    by blast
  have small: "- (2 ^ 62) < v - ?m \<and> v - ?m < 2 ^ 62" if "v \<in> set zs" for v
    using that assms(2) m by fastforce
  show "map (\<lambda>v. wrap64 (v - ?m)) zs = ?zs'"
  proof (rule map_cong [OF refl])
    fix v assume "v \<in> set zs"
    from small [OF this] show "wrap64 (v - ?m) = v - ?m"
      by (intro wrap64_id) simp_all
  qed
  have "Max (set ?zs') \<in> set ?zs'"
    using assms(1) by (intro Max_in) auto
  then obtain v where "v \<in> set zs" "Max (set ?zs') = v - ?m"
    by auto
  with small [of v] show "wrap64 (Max (set ?zs') + 1) = Max (set ?zs') + 1"
    by (intro wrap64_id) simp_all
qed

lemma index_arrays_Inr:
  assumes "xs \<noteq> []" and "length ys = length xs"
    and bx: "\<forall>v\<in>set xs. \<bar>scaled sc v\<bar> < 2 ^ 61"
    and bnd_y: "\<forall>v\<in>set ys. \<bar>scaled sc v\<bar> < 2 ^ 61"
  shows "index_arrays proj sc msk xs ys =
     Inr \<lparr> x_index = map (\<lambda>v. v - Min (set (map (scaled sc) xs))) (map (scaled sc) xs),
           y_index = map (\<lambda>v. v - Min (set (map (scaled sc) ys))) (map (scaled sc) ys),
           lonlat_mask = msk,
           geotransform_max_y = Max (set ys), geotransform_min_x = Min (set xs),
           projection = proj, scale = sc,
           out_image_shape =
             (Max (set (map (\<lambda>v. v - Min (set (map (scaled sc) ys))) (map (scaled sc) ys))) + 1,
              Max (set (map (\<lambda>v. v - Min (set (map (scaled sc) xs))) (map (scaled sc) xs))) + 1) \<rparr>"
proof -
  let ?X = "map (scaled sc) xs" and ?Y = "map (scaled sc) ys"
  from assms have ne: "?X \<noteq> []" "?Y \<noteq> []" "ys \<noteq> []"
    by auto
  have sx: "\<forall>v\<in>set ?X. \<bar>v\<bar> < 2 ^ 61" and sy: "\<forall>v\<in>set ?Y. \<bar>v\<bar> < 2 ^ 61"
    using bx bnd_y by simp_all
  note wx = shift_no_wrap [OF ne(1) sx] and wy = shift_no_wrap [OF ne(2) sy]
  have "index_arrays proj sc msk xs ys =
     Inr \<lparr> x_index = map (\<lambda>v. wrap64 (v - Min (set ?X))) ?X,
           y_index = map (\<lambda>v. wrap64 (v - Min (set ?Y))) ?Y,
           lonlat_mask = msk,
           geotransform_max_y = Max (set ys), geotransform_min_x = Min (set xs),
           projection = proj, scale = sc,
           out_image_shape =
             (wrap64 (Max (set (map (\<lambda>v. wrap64 (v - Min (set ?Y))) ?Y)) + 1),
              wrap64 (Max (set (map (\<lambda>v. wrap64 (v - Min (set ?X))) ?X)) + 1)) \<rparr>"
    using assms(1) ne by (simp add: index_arrays_def np_min_def np_max_def Let_def)
  then show ?thesis
    unfolding wx wy .
qed

lemma shifted_span:
  fixes zs :: "int list"
  assumes "zs \<noteq> []"
  defines "zs' \<equiv> map (\<lambda>v. v - Min (set zs)) zs"
  shows "1 \<le> Max (set zs') + 1"
    and "2 \<le> Max (set zs') + 1 \<longleftrightarrow> (\<exists>i<length zs'. \<exists>j<length zs'. zs' ! i \<noteq> zs' ! j)"
proof -
  have ne: "set zs' \<noteq> {}" and fin: "finite (set zs')"
    using assms by auto
  have bounds: "\<forall>v\<in>set zs'. 0 \<le> v \<and> v < Max (set zs') + 1" and min0: "Min (set zs') = 0"
    unfolding zs'_def using shifted_bounds [OF assms(1)] by blast+
  have zero_in: "0 \<in> set zs'"
    using Min_in [OF fin ne] min0 by simp
  have max_in: "Max (set zs') \<in> set zs'"
    using Max_in [OF fin ne] .
  show "1 \<le> Max (set zs') + 1"
    using bounds max_in by auto
  show "2 \<le> Max (set zs') + 1 \<longleftrightarrow> (\<exists>i<length zs'. \<exists>j<length zs'. zs' ! i \<noteq> zs' ! j)"
  proof
    assume "2 \<le> Max (set zs') + 1"
    then have "Max (set zs') \<noteq> 0" by simp
    moreover obtain i where "i < length zs'" "zs' ! i = Max (set zs')"
      using max_in by (auto simp: in_set_conv_nth)
    moreover obtain j where "j < length zs'" "zs' ! j = 0"
      using zero_in by (auto simp: in_set_conv_nth)
    ultimately show "\<exists>i<length zs'. \<exists>j<length zs'. zs' ! i \<noteq> zs' ! j"
      by metis
  next
    assume "\<exists>i<length zs'. \<exists>j<length zs'. zs' ! i \<noteq> zs' ! j"
    then obtain i j where ij: "i < length zs'" "j < length zs'" "zs' ! i \<noteq> zs' ! j"
      by blast
    then have "zs' ! i \<in> set zs'" "zs' ! j \<in> set zs'"
      by auto
    then have "0 \<le> zs' ! i" "0 \<le> zs' ! j" "zs' ! i \<le> Max (set zs')" "zs' ! j \<le> Max (set zs')"
      using bounds by fastforce+
    with ij(3) show "2 \<le> Max (set zs') + 1"
      by linarith
  qed
qed

lemma process_geoloc_file_wf:
  assumes "is_geoloc geofile" and "Latitude f = Some lat" and "Longitude f = Some lon"
    and "length lon = length lat"
  shows "process_geoloc_file proj geofile f sc =
     (let msk = map2 lonlat_valid lon lat;
          xy = map2 proj (mask_select lon msk) (mask_select lat msk)
      in if \<not> list_all isfinite (map fst xy) then Inl AssertionError
         else index_arrays proj sc msk (map (\<lambda>v. np_int (np_round v)) (map fst xy))
                (map (\<lambda>v. np_int (np_round v)) (map snd xy)))"
  using assms by (simp add: process_geoloc_file_def Let_def)

lemma selected_Nil_iff:
  assumes "length lon = length lat"
  shows "map2 proj (mask_select lon (map2 lonlat_valid lon lat))
           (mask_select lat (map2 lonlat_valid lon lat)) = []
         \<longleftrightarrow> (\<forall>i<length lat. \<not> lonlat_valid (lon ! i) (lat ! i))"
proof -
  let ?m = "map2 lonlat_valid lon lat"
  have len: "length ?m = length lon"
    using assms by simp
  have "map2 proj (mask_select lon ?m) (mask_select lat ?m) = [] \<longleftrightarrow> mask_select lon ?m = []"
    using length_mask_select [OF assms, of ?m] by (cases "mask_select lon ?m") auto
  also have "\<dots> \<longleftrightarrow> (\<forall>i<length lon. \<not> ?m ! i)"
    using mask_select_Nil_iff [OF len] .
  also have "\<dots> \<longleftrightarrow> (\<forall>i<length lat. \<not> lonlat_valid (lon ! i) (lat ! i))"
    using assms by auto
  finally show ?thesis .
qed

lemma selected_set:
  assumes "length lon = length lat"
  shows "set (zip (mask_select lon (map2 lonlat_valid lon lat))
                  (mask_select lat (map2 lonlat_valid lon lat)))
         = {(lon ! i, lat ! i) | i. i < length lat \<and> lonlat_valid (lon ! i) (lat ! i)}"
proof -
  let ?m = "map2 lonlat_valid lon lat"
  have len: "length ?m = length lon" "length (zip lon lat) = length lon"
    using assms by simp_all
  have "set (zip (mask_select lon ?m) (mask_select lat ?m)) =
        {zip lon lat ! i | i. i < length lon \<and> ?m ! i}"
    using len by (simp add: zip_mask_select [OF assms] set_mask_select)
  also have "\<dots> = {(lon ! i, lat ! i) | i. i < length lat \<and> lonlat_valid (lon ! i) (lat ! i)}"
  proof -
    have "zip lon lat ! i = (lon ! i, lat ! i) \<and> ?m ! i = lonlat_valid (lon ! i) (lat ! i)"
      if "i < length lat" for i
      using that assms by simp
    then show ?thesis
      using assms by (intro Collect_cong) (metis (no_types, lifting))
  qed
  finally show ?thesis .
qed

lemma selected_x_finite_iff:
  assumes "length lon = length lat"
  shows "list_all isfinite (map fst (map2 proj (mask_select lon (map2 lonlat_valid lon lat))
           (mask_select lat (map2 lonlat_valid lon lat))))
         \<longleftrightarrow> (\<forall>i<length lat. lonlat_valid (lon ! i) (lat ! i) \<longrightarrow> isfinite (fst (proj (lon ! i) (lat ! i))))"
  using selected_set [OF assms] by (auto simp: list_all_iff)

lemma length_mask_select_filter:
  "length xs = length ms \<Longrightarrow> length (mask_select xs ms) = length (filter id ms)"
  by (induction xs ms rule: mask_select.induct) auto

lemma process_geoloc_file_returns:
  assumes wf: "is_geoloc geofile" "Latitude f = Some lat" "Longitude f = Some lon"
      "length lon = length lat"
    and sel: "\<exists>i<length lat. lonlat_valid (lon ! i) (lat ! i)"
    and fin: "\<forall>i<length lat. lonlat_valid (lon ! i) (lat ! i) \<longrightarrow> isfinite (fst (proj (lon ! i) (lat ! i)))"
    and bnd: "\<forall>i<length lat. lonlat_valid (lon ! i) (lat ! i) \<longrightarrow>
                \<bar>fst (scaled_xy proj sc (lon ! i) (lat ! i))\<bar> < 2 ^ 61
                \<and> \<bar>snd (scaled_xy proj sc (lon ! i) (lat ! i))\<bar> < 2 ^ 61"
  shows "\<exists>xs ys. xs \<noteq> [] \<and> ys \<noteq> [] \<and> length ys = length xs
     \<and> length xs = length (filter id (map2 lonlat_valid lon lat))
     \<and> process_geoloc_file proj geofile f sc =
       Inr \<lparr> x_index = map (\<lambda>v. v - Min (set xs)) xs,
             y_index = map (\<lambda>v. v - Min (set ys)) ys,
             lonlat_mask = map2 lonlat_valid lon lat,
             geotransform_max_y =
               Max (set (map (\<lambda>v. np_int (np_round v)) (map snd
                 (map2 proj (mask_select lon (map2 lonlat_valid lon lat))
                   (mask_select lat (map2 lonlat_valid lon lat)))))),
             geotransform_min_x =
               Min (set (map (\<lambda>v. np_int (np_round v)) (map fst
                 (map2 proj (mask_select lon (map2 lonlat_valid lon lat))
                   (mask_select lat (map2 lonlat_valid lon lat)))))),
             projection = proj, scale = sc,
             out_image_shape = (Max (set (map (\<lambda>v. v - Min (set ys)) ys)) + 1,
                                Max (set (map (\<lambda>v. v - Min (set xs)) xs)) + 1) \<rparr>"
proof -
  let ?m = "map2 lonlat_valid lon lat"
  let ?xy = "map2 proj (mask_select lon ?m) (mask_select lat ?m)"
  let ?X = "map (\<lambda>v. np_int (np_round v)) (map fst ?xy)"
  let ?Y = "map (\<lambda>v. np_int (np_round v)) (map snd ?xy)"
  have ne: "?xy \<noteq> []"
    using selected_Nil_iff [OF wf(4), of proj] sel by blast
  have allfin: "list_all isfinite (map fst ?xy)"
    using selected_x_finite_iff [OF wf(4), of proj] fin by blast
  have lenm: "length lon = length ?m"
    using wf(4) by simp
  have len_xy: "length ?xy = length (filter id ?m)"
    using length_mask_select [OF wf(4), of ?m] length_mask_select_filter [OF lenm] by simp
  have X: "?X \<noteq> []" "length ?Y = length ?X"
    using ne by simp_all
  have in_sel: "\<bar>scaled sc (np_int (np_round (fst (proj lo la))))\<bar> < 2 ^ 61
                \<and> \<bar>scaled sc (np_int (np_round (snd (proj lo la))))\<bar> < 2 ^ 61"
    if "(lo, la) \<in> set (zip (mask_select lon ?m) (mask_select lat ?m))" for lo la
  proof -
    from that obtain i where "i < length lat" "lonlat_valid (lon ! i) (lat ! i)"
        "lo = lon ! i" "la = lat ! i"
      unfolding selected_set [OF wf(4)] by blast
    with bnd show ?thesis
      by (simp add: scaled_xy_def)
  qed
  have bx: "\<forall>v\<in>set ?X. \<bar>scaled sc v\<bar> < 2 ^ 61"
  proof
    fix v assume "v \<in> set ?X"
    then obtain lo la where "(lo, la) \<in> set (zip (mask_select lon ?m) (mask_select lat ?m))"
        "v = np_int (np_round (fst (proj lo la)))"
      by auto
    with in_sel show "\<bar>scaled sc v\<bar> < 2 ^ 61"
      by blast
  qed
  have bnd_y: "\<forall>v\<in>set ?Y. \<bar>scaled sc v\<bar> < 2 ^ 61"
  proof
    fix v assume "v \<in> set ?Y"
    then obtain lo la where "(lo, la) \<in> set (zip (mask_select lon ?m) (mask_select lat ?m))"
        "v = np_int (np_round (snd (proj lo la)))"
      by auto
    with in_sel show "\<bar>scaled sc v\<bar> < 2 ^ 61"
      by blast
  qed
  have "process_geoloc_file proj geofile f sc = index_arrays proj sc ?m ?X ?Y"
    using allfin by (simp add: process_geoloc_file_wf [OF wf] Let_def)
  also note index_arrays_Inr [OF X bx bnd_y, of proj ?m]
  finally have res: "process_geoloc_file proj geofile f sc =
       Inr \<lparr> x_index = map (\<lambda>v. v - Min (set (map (scaled sc) ?X))) (map (scaled sc) ?X),
           y_index = map (\<lambda>v. v - Min (set (map (scaled sc) ?Y))) (map (scaled sc) ?Y),
           lonlat_mask = ?m,
           geotransform_max_y = Max (set ?Y), geotransform_min_x = Min (set ?X),
           projection = proj, scale = sc,
           out_image_shape =
             (Max (set (map (\<lambda>v. v - Min (set (map (scaled sc) ?Y))) (map (scaled sc) ?Y))) + 1,
              Max (set (map (\<lambda>v. v - Min (set (map (scaled sc) ?X))) (map (scaled sc) ?X))) + 1) \<rparr>" .
  show ?thesis
    apply (rule exI [of _ "map (scaled sc) ?X"])
    apply (rule exI [of _ "map (scaled sc) ?Y"])
    using ne len_xy res by simp
qed

lemma process_geoloc_file_x_not_finite:
  assumes wf: "is_geoloc geofile" "Latitude f = Some lat" "Longitude f = Some lon"
      "length lon = length lat"
    and bad: "\<exists>i<length lat. lonlat_valid (lon ! i) (lat ! i) \<and> \<not> isfinite (fst (proj (lon ! i) (lat ! i)))"
  shows "process_geoloc_file proj geofile f sc = Inl AssertionError"
proof -
  have "\<not> list_all isfinite (map fst (map2 proj (mask_select lon (map2 lonlat_valid lon lat))
           (mask_select lat (map2 lonlat_valid lon lat))))"
    using selected_x_finite_iff [OF wf(4), of proj] bad by blast
  then show ?thesis
    by (simp add: process_geoloc_file_wf [OF wf] Let_def)
qed

lemma process_geoloc_file_nothing_selected:
  assumes wf: "is_geoloc geofile" "Latitude f = Some lat" "Longitude f = Some lon"
      "length lon = length lat"
    and none: "\<forall>i<length lat. \<not> lonlat_valid (lon ! i) (lat ! i)"
  shows "process_geoloc_file proj geofile f sc = Inl ValueError"
proof -
  have e: "map2 proj (mask_select lon (map2 lonlat_valid lon lat))
           (mask_select lat (map2 lonlat_valid lon lat)) = []"
    using selected_Nil_iff [OF wf(4), of proj] none by blast
  show ?thesis
    unfolding process_geoloc_file_wf [OF wf] Let_def e by (simp add: index_arrays_Nil)
qed

subsection \<open>Indices and image shape\<close>

lemma list_all_zip_nth:
  assumes "length xs = length ys" and "list_all (\<lambda>(x, y). Q x y) (zip xs ys)"
  shows "\<forall>i<length ys. Q (xs ! i) (ys ! i)"
proof (intro allI impI)
  fix i assume "i < length ys"
  with assms(1) have "(xs ! i, ys ! i) \<in> set (zip xs ys)"
    by (auto simp: set_zip)
  with assms(2) show "Q (xs ! i) (ys ! i)"
    by (auto simp: list_all_iff)
qed

text \<open>
  Claim C1, as amended. The index arrays are 64-bit integers, and the subtraction of the
  minimum wraps around when two scaled coordinates are too far apart: at the scale
  \<open>10^-12\<close> the claim fails. What holds: take a geolocation file whose latitude and
  longitude arrays have the same shape, whose validity mask selects at least one pixel
  and whose selected pixels all have scaled coordinates below \<open>2^61\<close> in absolute value
  (so that no 64-bit operation overflows). Then \<^verbatim>\<open>process_geoloc_file\<close> either fails on
  its finiteness assertion (some selected pixel has a projected x that is not finite),
  or it returns index arrays of identical shape, with one entry per selected pixel, such
  that \<open>out_image_shape = (max(y_index) + 1, max(x_index) + 1)\<close> and every pair satisfies
  \<open>0 \<le> row < out_image_shape[0]\<close> and \<open>0 \<le> col < out_image_shape[1]\<close>.
\<close>

theorem geoloc_indices_within_bounds:
  assumes "is_geoloc geofile" and "Latitude f = Some lat" and "Longitude f = Some lon"
    and "length lon = length lat"
    and "\<exists>i<length lat. lonlat_valid (lon ! i) (lat ! i)"
    and "\<forall>i<length lat. lonlat_valid (lon ! i) (lat ! i) \<longrightarrow>
           \<bar>fst (scaled_xy proj sc (lon ! i) (lat ! i))\<bar> < 2 ^ 61
           \<and> \<bar>snd (scaled_xy proj sc (lon ! i) (lat ! i))\<bar> < 2 ^ 61"
  shows "case process_geoloc_file proj geofile f sc of
           Inl e \<Rightarrow> e = AssertionError
             \<and> (\<exists>i<length lat. lonlat_valid (lon ! i) (lat ! i)
                    \<and> \<not> isfinite (fst (proj (lon ! i) (lat ! i))))
         | Inr g \<Rightarrow>
             length (x_index g) = length (y_index g)
             \<and> length (x_index g) = length (filter id (lonlat_mask g))
             \<and> out_image_shape g = (Max (set (y_index g)) + 1, Max (set (x_index g)) + 1)
             \<and> (\<forall>i<length (x_index g).
                   0 \<le> y_index g ! i \<and> y_index g ! i < fst (out_image_shape g)
                   \<and> 0 \<le> x_index g ! i \<and> x_index g ! i < snd (out_image_shape g))"
proof (cases "\<forall>i<length lat. lonlat_valid (lon ! i) (lat ! i)
                \<longrightarrow> isfinite (fst (proj (lon ! i) (lat ! i)))")
  case True
  from process_geoloc_file_returns [OF assms(1-5) True assms(6)]
  obtain xs ys where ne: "xs \<noteq> []" "ys \<noteq> []" and len: "length ys = length xs"
      "length xs = length (filter id (map2 lonlat_valid lon lat))"
    and res: "process_geoloc_file proj geofile f sc =
       Inr \<lparr> x_index = map (\<lambda>v. v - Min (set xs)) xs,
             y_index = map (\<lambda>v. v - Min (set ys)) ys,
             lonlat_mask = map2 lonlat_valid lon lat,
             geotransform_max_y =
               Max (set (map (\<lambda>v. np_int (np_round v)) (map snd
                 (map2 proj (mask_select lon (map2 lonlat_valid lon lat))
                   (mask_select lat (map2 lonlat_valid lon lat)))))),
             geotransform_min_x =
               Min (set (map (\<lambda>v. np_int (np_round v)) (map fst
                 (map2 proj (mask_select lon (map2 lonlat_valid lon lat))
                   (mask_select lat (map2 lonlat_valid lon lat)))))),
             projection = proj, scale = sc,
             out_image_shape = (Max (set (map (\<lambda>v. v - Min (set ys)) ys)) + 1,
                                Max (set (map (\<lambda>v. v - Min (set xs)) xs)) + 1) \<rparr>"
    by blast
  have bnd_x: "\<forall>v\<in>set (map (\<lambda>v. v - Min (set xs)) xs).
              0 \<le> v \<and> v < Max (set (map (\<lambda>v. v - Min (set xs)) xs)) + 1"
    using shifted_bounds(1) [OF ne(1)] .
  have bnd_y: "\<forall>v\<in>set (map (\<lambda>v. v - Min (set ys)) ys).
              0 \<le> v \<and> v < Max (set (map (\<lambda>v. v - Min (set ys)) ys)) + 1"
    using shifted_bounds(1) [OF ne(2)] .
  have "0 \<le> map (\<lambda>v. v - Min (set ys)) ys ! i
        \<and> map (\<lambda>v. v - Min (set ys)) ys ! i < Max (set (map (\<lambda>v. v - Min (set ys)) ys)) + 1
        \<and> 0 \<le> map (\<lambda>v. v - Min (set xs)) xs ! i
        \<and> map (\<lambda>v. v - Min (set xs)) xs ! i < Max (set (map (\<lambda>v. v - Min (set xs)) xs)) + 1"
    if "i < length xs" for i
  proof -
    have "map (\<lambda>v. v - Min (set xs)) xs ! i \<in> set (map (\<lambda>v. v - Min (set xs)) xs)"
      "map (\<lambda>v. v - Min (set ys)) ys ! i \<in> set (map (\<lambda>v. v - Min (set ys)) ys)"
      using that len by (simp_all del: set_map nth_map)
    then show ?thesis
      using bnd_x bnd_y by blast
  qed
  then show ?thesis
    unfolding res using len by (simp del: set_map nth_map)
next
  case False
  then have bad: "\<exists>i<length lat. lonlat_valid (lon ! i) (lat ! i)
                    \<and> \<not> isfinite (fst (proj (lon ! i) (lat ! i)))"
    by blast
  from process_geoloc_file_x_not_finite [OF assms(1-4) bad, of sc] bad
  show ?thesis by simp
qed

theorem geoloc_indices_within_bounds_witness:
  "case process_geoloc_file equirect sample_geofile sample_latlon (Fin 2000) of
     Inl e \<Rightarrow> False
   | Inr g \<Rightarrow>
       x_index g = [0, 0, 2] \<and> y_index g = [0, 2, 2] \<and> out_image_shape g = (3, 3)
       \<and> length (x_index g) = length (y_index g)
       \<and> 0 \<le> y_index g ! 2 \<and> y_index g ! 2 < fst (out_image_shape g)
       \<and> 0 \<le> x_index g ! 2 \<and> x_index g ! 2 < snd (out_image_shape g)"
proof -
  let ?lat = "[Fin 50, Fin (5003 / 100), Fin (- 9993 / 10), Fin (1001 / 20)]"
  let ?lon = "[Fin 80, Fin (8001 / 100), Fin 80, Fin (1601 / 20)]"
  have h1: "is_geoloc sample_geofile"
    by (simp add: sample_geofile_def)
  have h2: "Latitude sample_latlon = Some ?lat" and h3: "Longitude sample_latlon = Some ?lon"
    by (simp_all add: sample_latlon_def)
  have h4: "length ?lon = length ?lat"
    by simp
  have h5: "\<exists>i<length ?lat. lonlat_valid (?lon ! i) (?lat ! i)"
    by (rule exI [of _ 0]) (simp add: lonlat_valid_def fgt_def flt_def)
  have "list_all (\<lambda>(lo, la). lonlat_valid lo la \<longrightarrow>
           \<bar>fst (scaled_xy equirect (Fin 2000) lo la)\<bar> < 2 ^ 61
           \<and> \<bar>snd (scaled_xy equirect (Fin 2000) lo la)\<bar> < 2 ^ 61) (zip ?lon ?lat)"
    by code_simp
  from list_all_zip_nth [OF h4 this]
  have h6: "\<forall>i<length ?lat. lonlat_valid (?lon ! i) (?lat ! i) \<longrightarrow>
           \<bar>fst (scaled_xy equirect (Fin 2000) (?lon ! i) (?lat ! i))\<bar> < 2 ^ 61
           \<and> \<bar>snd (scaled_xy equirect (Fin 2000) (?lon ! i) (?lat ! i))\<bar> < 2 ^ 61" .
  have ev: "map_sum id (\<lambda>g. (x_index g, y_index g))
              (process_geoloc_file equirect sample_geofile sample_latlon (Fin 2000))
            = Inr ([0, 0, 2], [0, 2, 2])"
    by code_simp
  from geoloc_indices_within_bounds [OF h1 h2 h3 h4 h5 h6] ev
  show ?thesis
    by (cases "process_geoloc_file equirect sample_geofile sample_latlon (Fin 2000)") auto
qed

text \<open>
  Longitudes 10 and 100 at the scale \<open>10^-12\<close>: the scaled x coordinates are \<open>10^18\<close> and
  \<open>10^19\<close>, the cast of the second gives \<open>-2^63\<close>, and the subtraction of this minimum
  wraps the first index around to a negative column, \<open>10^18 - 2^63\<close>.
\<close>

theorem geoloc_index_wraps_counterexample:
  "lonlat_valid (Fin 10) (Fin 50)
   \<and> map_sum id (\<lambda>g. (x_index g, out_image_shape g))
       (process_geoloc_file equirect sample_geofile wide_latlon (Fin (1 / 10 ^ 12)))
     = Inr ([- 8223372036854775808, 0], (1, 1))"
  by code_simp

subsection \<open>The smallest image\<close>

text \<open>
  Claim C3, as amended. The claim asks for both dimensions of \<open>out_image_shape\<close> to be at
  least 2 whenever one pixel is valid. A file with a single valid pixel yields the shape
  \<open>(1, 1)\<close>: both index arrays are \<open>[0]\<close>. What \<^verbatim>\<open>process_geoloc_file\<close> guarantees
  is this: for a geolocation file with equal-shaped arrays, at least one selected pixel
  and scaled coordinates of the selected pixels below \<open>2^61\<close> in absolute value (no
  overflow of the 64-bit index arithmetic), it fails on its finiteness assertion or
  returns a shape whose dimensions are both at least 1, and a dimension is at least 2
  exactly when two selected pixels differ in the index of that axis. (Shapes with a
  dimension below 2 are turned down later, by the assertion
  \<^verbatim>\<open>'image must be at least 2x2'\<close> of \<^verbatim>\<open>process_band_file\<close>.)
\<close>

theorem geoloc_image_shape_dims:
  assumes "is_geoloc geofile" and "Latitude f = Some lat" and "Longitude f = Some lon"
    and "length lon = length lat"
    and "\<exists>i<length lat. lonlat_valid (lon ! i) (lat ! i)"
    and "\<forall>i<length lat. lonlat_valid (lon ! i) (lat ! i) \<longrightarrow>
           \<bar>fst (scaled_xy proj sc (lon ! i) (lat ! i))\<bar> < 2 ^ 61
           \<and> \<bar>snd (scaled_xy proj sc (lon ! i) (lat ! i))\<bar> < 2 ^ 61"
  shows "case process_geoloc_file proj geofile f sc of
           Inl e \<Rightarrow> e = AssertionError
         | Inr g \<Rightarrow>
             1 \<le> fst (out_image_shape g) \<and> 1 \<le> snd (out_image_shape g)
             \<and> (2 \<le> fst (out_image_shape g) \<longleftrightarrow>
                  (\<exists>i<length (y_index g). \<exists>j<length (y_index g). y_index g ! i \<noteq> y_index g ! j))
             \<and> (2 \<le> snd (out_image_shape g) \<longleftrightarrow>
                  (\<exists>i<length (x_index g). \<exists>j<length (x_index g). x_index g ! i \<noteq> x_index g ! j))"
proof (cases "\<forall>i<length lat. lonlat_valid (lon ! i) (lat ! i)
                \<longrightarrow> isfinite (fst (proj (lon ! i) (lat ! i)))")
  case True
  from process_geoloc_file_returns [OF assms(1-5) True assms(6)]
  obtain xs ys where ne: "xs \<noteq> []" "ys \<noteq> []"
    and res: "process_geoloc_file proj geofile f sc =
       Inr \<lparr> x_index = map (\<lambda>v. v - Min (set xs)) xs,
             y_index = map (\<lambda>v. v - Min (set ys)) ys,
             lonlat_mask = map2 lonlat_valid lon lat,
             geotransform_max_y =
               Max (set (map (\<lambda>v. np_int (np_round v)) (map snd
                 (map2 proj (mask_select lon (map2 lonlat_valid lon lat))
                   (mask_select lat (map2 lonlat_valid lon lat)))))),
             geotransform_min_x =
               Min (set (map (\<lambda>v. np_int (np_round v)) (map fst
                 (map2 proj (mask_select lon (map2 lonlat_valid lon lat))
                   (mask_select lat (map2 lonlat_valid lon lat)))))),
             projection = proj, scale = sc,
             out_image_shape = (Max (set (map (\<lambda>v. v - Min (set ys)) ys)) + 1,
                                Max (set (map (\<lambda>v. v - Min (set xs)) xs)) + 1) \<rparr>"
    by blast
  note sx = shifted_span [OF ne(1)] and sy = shifted_span [OF ne(2)]
  show ?thesis
    unfolding res using sx sy by (simp del: set_map nth_map length_map)
next
  case False
  then have bad: "\<exists>i<length lat. lonlat_valid (lon ! i) (lat ! i)
                    \<and> \<not> isfinite (fst (proj (lon ! i) (lat ! i)))"
    by blast
  from process_geoloc_file_x_not_finite [OF assms(1-4) bad, of sc]
  show ?thesis by simp
qed

theorem geoloc_image_shape_dims_witness:
  "case process_geoloc_file equirect sample_geofile sample_latlon (Fin 2000) of
     Inl e \<Rightarrow> False
   | Inr g \<Rightarrow>
       y_index g = [0, 2, 2] \<and> 1 \<le> fst (out_image_shape g) \<and> 2 \<le> fst (out_image_shape g)"
proof -
  let ?lat = "[Fin 50, Fin (5003 / 100), Fin (- 9993 / 10), Fin (1001 / 20)]"
  let ?lon = "[Fin 80, Fin (8001 / 100), Fin 80, Fin (1601 / 20)]"
  let ?r = "process_geoloc_file equirect sample_geofile sample_latlon (Fin 2000)"
  have h1: "is_geoloc sample_geofile"
    by (simp add: sample_geofile_def)
  have h2: "Latitude sample_latlon = Some ?lat" and h3: "Longitude sample_latlon = Some ?lon"
    by (simp_all add: sample_latlon_def)
  have h4: "length ?lon = length ?lat"
    by simp
  have h5: "\<exists>i<length ?lat. lonlat_valid (?lon ! i) (?lat ! i)"
    by (rule exI [of _ 0]) (simp add: lonlat_valid_def fgt_def flt_def)
  have "list_all (\<lambda>(lo, la). lonlat_valid lo la \<longrightarrow>
           \<bar>fst (scaled_xy equirect (Fin 2000) lo la)\<bar> < 2 ^ 61
           \<and> \<bar>snd (scaled_xy equirect (Fin 2000) lo la)\<bar> < 2 ^ 61) (zip ?lon ?lat)"
    by code_simp
  from list_all_zip_nth [OF h4 this]
  have h6: "\<forall>i<length ?lat. lonlat_valid (?lon ! i) (?lat ! i) \<longrightarrow>
           \<bar>fst (scaled_xy equirect (Fin 2000) (?lon ! i) (?lat ! i))\<bar> < 2 ^ 61
           \<and> \<bar>snd (scaled_xy equirect (Fin 2000) (?lon ! i) (?lat ! i))\<bar> < 2 ^ 61" .
  have ev: "map_sum id y_index ?r = Inr [0, 2, 2]"
    by code_simp
  then obtain g where g: "?r = Inr g" and y: "y_index g = [0, 2, 2]"
    by (cases ?r) auto
  from geoloc_image_shape_dims [OF h1 h2 h3 h4 h5 h6] g
  have one: "1 \<le> fst (out_image_shape g)"
    and two: "2 \<le> fst (out_image_shape g) \<longleftrightarrow>
      (\<exists>i<length (y_index g). \<exists>j<length (y_index g). y_index g ! i \<noteq> y_index g ! j)"
    by simp_all
  have "\<exists>i<length (y_index g). \<exists>j<length (y_index g). y_index g ! i \<noteq> y_index g ! j"
    unfolding y by (rule exI [of _ 0], simp, rule exI [of _ 1], simp)
  with two have "2 \<le> fst (out_image_shape g)"
    by blast
  with one y g show ?thesis
    by simp
qed

text \<open>The single valid pixel: the shape returned is \<open>(1, 1)\<close>.\<close>

theorem single_pixel_shape_counterexample:
  "map_sum id out_image_shape
     (process_geoloc_file equirect sample_geofile single_pixel_latlon (Fin 2000)) = Inr (1, 1)"
  by code_simp

subsection \<open>Projected coordinates that are not finite\<close>

text \<open>
  Claim C4, as amended. The claim names \<^verbatim>\<open>InvalidData\<close> as the error and covers both
  coordinate arrays. The code uses \<^verbatim>\<open>assert\<close>, so the error is \<^verbatim>\<open>AssertionError\<close>; this
  is what holds for the x array: if some selected pixel has a projected x that is not
  finite, \<^verbatim>\<open>process_geoloc_file\<close> fails with \<^verbatim>\<open>AssertionError\<close> and returns no index.
\<close>

theorem geoloc_nonfinite_x_assertion:
  assumes "is_geoloc geofile" and "Latitude f = Some lat" and "Longitude f = Some lon"
    and "length lon = length lat"
    and "\<exists>i<length lat. lonlat_valid (lon ! i) (lat ! i)
           \<and> \<not> isfinite (fst (proj (lon ! i) (lat ! i)))"
  shows "process_geoloc_file proj geofile f sc = Inl AssertionError"
  using assms by (rule process_geoloc_file_x_not_finite)

theorem geoloc_nonfinite_x_assertion_witness:
  "process_geoloc_file equirect sample_geofile inf_lon_latlon (Fin 2000) = Inl AssertionError"
proof (rule geoloc_nonfinite_x_assertion)
  show "is_geoloc sample_geofile"
    by (simp add: sample_geofile_def)
  show "Latitude inf_lon_latlon = Some [Fin 50, Fin 51]"
    and "Longitude inf_lon_latlon = Some [Fin 80, PInf]"
    by (simp_all add: inf_lon_latlon_def)
  show "length [Fin 80, PInf] = length [Fin 50, Fin 51]"
    by simp
  show "\<exists>i<length [Fin 50, Fin 51]. lonlat_valid ([Fin 80, PInf] ! i) ([Fin 50, Fin 51] ! i)
           \<and> \<not> isfinite (fst (equirect ([Fin 80, PInf] ! i) ([Fin 50, Fin 51] ! i)))"
    by (rule exI [of _ 1]) (simp add: lonlat_valid_def fgt_def flt_def equirect_def fmul_def is_zero_def signed_inf_def)
qed

text \<open>
  An infinite longitude passes the validity mask and projects to an infinite x: the error
  is \<^verbatim>\<open>AssertionError\<close>, not \<^verbatim>\<open>InvalidData\<close>.
\<close>

theorem nonfinite_x_error_counterexample:
  "\<not> isfinite (fst (equirect PInf (Fin 51)))
   \<and> process_geoloc_file equirect sample_geofile inf_lon_latlon (Fin 2000) = Inl AssertionError
   \<and> process_geoloc_file equirect sample_geofile inf_lon_latlon (Fin 2000) \<noteq> Inl InvalidData"
proof -
  have "map_sum id (\<lambda>g. ())
          (process_geoloc_file equirect sample_geofile inf_lon_latlon (Fin 2000))
        = Inl AssertionError"
    by code_simp
  then have "process_geoloc_file equirect sample_geofile inf_lon_latlon (Fin 2000)
             = Inl AssertionError"
    by (cases "process_geoloc_file equirect sample_geofile inf_lon_latlon (Fin 2000)") auto
  moreover have "\<not> isfinite (fst (equirect PInf (Fin 51)))"
    by code_simp
  ultimately show ?thesis
    by simp
qed

text \<open>
  The y array is never tested: the second assertion repeats the test of \<^verbatim>\<open>x_index\<close>
  under the message \<^verbatim>\<open>'y_index contains non-finite numbers'\<close>. With an infinite latitude
  and finite projected x the function returns an index.
\<close>

lemma geoloc_nonfinite_y_not_checked:
  "\<not> isfinite (snd (equirect (Fin 81) PInf))
   \<and> map_sum id x_index
       (process_geoloc_file equirect sample_geofile inf_lat_latlon (Fin 2000))
     = Inr [0, 50]"
  by code_simp

subsection \<open>No valid pixel\<close>

text \<open>
  Claim C5, as amended. When the validity mask selects no pixel of a geolocation file
  with equal-shaped arrays, \<^verbatim>\<open>process_geoloc_file\<close> fails, and the error is
  \<^verbatim>\<open>ValueError\<close>: it is raised by \<^verbatim>\<open>x_index.min()\<close> on the empty array. The code has
  no test of its own for this case and never raises \<^verbatim>\<open>InvalidData\<close> here.
\<close>

theorem geoloc_no_valid_pixel_fails:
  assumes "is_geoloc geofile" and "Latitude f = Some lat" and "Longitude f = Some lon"
    and "length lon = length lat"
    and "\<forall>i<length lat. \<not> lonlat_valid (lon ! i) (lat ! i)"
  shows "process_geoloc_file proj geofile f sc = Inl ValueError"
  using assms by (rule process_geoloc_file_nothing_selected)

theorem geoloc_no_valid_pixel_fails_witness:
  "process_geoloc_file equirect sample_geofile fill_only_latlon (Fin 2000) = Inl ValueError"
proof (rule geoloc_no_valid_pixel_fails)
  show "is_geoloc sample_geofile"
    by (simp add: sample_geofile_def)
  show "Latitude fill_only_latlon = Some [Fin (- 9993 / 10)]"
    and "Longitude fill_only_latlon = Some [Fin (- 9993 / 10)]"
    by (simp_all add: fill_only_latlon_def)
  show "length [Fin (- 9993 / 10)] = length [Fin (- 9993 / 10)]"
    by simp
  show "\<forall>i<length [Fin (- 9993 / 10)].
          \<not> lonlat_valid ([Fin (- 9993 / 10)] ! i) ([Fin (- 9993 / 10)] ! i)"
    by (simp add: lonlat_valid_def fgt_def flt_def)
qed

text \<open>One pixel with the fill value in both arrays: the error is \<^verbatim>\<open>ValueError\<close>.\<close>

theorem no_valid_pixel_error_counterexample:
  "\<not> lonlat_valid (Fin (- 9993 / 10)) (Fin (- 9993 / 10))
   \<and> process_geoloc_file equirect sample_geofile fill_only_latlon (Fin 2000) = Inl ValueError
   \<and> process_geoloc_file equirect sample_geofile fill_only_latlon (Fin 2000) \<noteq> Inl InvalidData"
proof -
  have "map_sum id (\<lambda>g. ())
          (process_geoloc_file equirect sample_geofile fill_only_latlon (Fin 2000))
        = Inl ValueError"
    by code_simp
  then have "process_geoloc_file equirect sample_geofile fill_only_latlon (Fin 2000)
             = Inl ValueError"
    by (cases "process_geoloc_file equirect sample_geofile fill_only_latlon (Fin 2000)") auto
  moreover have "\<not> lonlat_valid (Fin (- 9993 / 10)) (Fin (- 9993 / 10))"
    by code_simp
  ultimately show ?thesis
    by simp
qed

section \<open>Properties of the derived products\<close>

subsection \<open>Boolean-mask assignment\<close>


lemma length_mask_fill [simp]: "length (mask_fill xs ms c) = length xs"
  by (induction xs ms c rule: mask_fill.induct) auto


lemma length_mask_assign [simp]: "length (mask_assign xs ms vs) = length xs"
  by (induction xs ms vs rule: mask_assign.induct) auto




subsection \<open>The clamped quotient\<close>



lemma clamp_nan [simp]: "clamp_dynamics NaN = NaN"
  by (simp add: clamp_dynamics_def fgt_def flt_def)


lemma is_zero_cases: "is_zero x \<longleftrightarrow> x = Fin 0 \<or> x = NZero"
  by (cases x) (simp_all add: is_zero_def)

lemma isinf_signed_inf [simp]: "isinf (signed_inf neg)"
  by (simp add: signed_inf_def)




subsection \<open>NDVI dynamics\<close>




subsection \<open>NDVI\<close>







section \<open>Properties of the band rasterizer\<close>

subsection \<open>Cells of an array\<close>

lemma flat_index_less:
  fixes r c h w :: nat
  assumes "r < h" and "c < w"
  shows "r * w + c < h * w"
proof -
  have "r * w + c < r * w + w" using assms by simp
  also have "\<dots> = Suc r * w" by simp
  also have "\<dots> \<le> h * w" using assms by (intro mult_le_mono1) simp
  finally show ?thesis .
qed

lemma flat_index_inj:
  fixes r c r' c' w :: nat
  assumes "c < w" and "c' < w" and "r * w + c = r' * w + c'"
  shows "r = r' \<and> c = c'"
proof -
  have d: "(r * w + c) div w = r"
    using assms(1) by simp
  have d': "(r' * w + c') div w = r'"
    using assms(2) by simp
  from d d' have "r = r'"
    unfolding assms(3) by simp
  with assms(3) show ?thesis by simp
qed

lemma put_in_range:
  assumes "0 \<le> y" and "y < int (rows a)" and "0 \<le> x" and "x < int (cols a)"
  shows "put a y x v = Inr (a\<lparr> cells := (cells a)[nat y * cols a + nat x := v] \<rparr>)"
  using assms by (simp add: put_def np_index_def)

lemma scatter_untouched:
  assumes "length (cells a) = rows a * cols a"
    and "length ys = length vs" and "length xs = length vs"
    and "\<forall>j<length vs. 0 \<le> ys ! j \<and> ys ! j < int (rows a) \<and> 0 \<le> xs ! j \<and> xs ! j < int (cols a)"
  shows "\<exists>a'. scatter a ys xs vs = Inr a' \<and> rows a' = rows a \<and> cols a' = cols a
           \<and> length (cells a') = length (cells a)
           \<and> (\<forall>r c. r < rows a \<and> c < cols a
                  \<and> (\<forall>j<length vs. (ys ! j, xs ! j) \<noteq> (int r, int c))
                \<longrightarrow> cell a' r c = cell a r c)"
  using assms
proof (induction vs arbitrary: a ys xs)
  case Nil
  then show ?case by simp
next
  case (Cons v vs)
  then obtain y ys' x xs' where eqs: "ys = y # ys'" "xs = x # xs'"
    by (cases ys; cases xs) auto
  from Cons.prems(4) [rule_format, of 0] eqs
  have rng: "0 \<le> y" "y < int (rows a)" "0 \<le> x" "x < int (cols a)"
    by simp_all
  define b where "b = a\<lparr> cells := (cells a)[nat y * cols a + nat x := v] \<rparr>"
  have put: "put a y x v = Inr b"
    unfolding b_def using rng by (rule put_in_range)
  have b: "rows b = rows a" "cols b = cols a" "length (cells b) = length (cells a)"
    by (simp_all add: b_def)
  have rest: "\<forall>j<length vs. 0 \<le> ys' ! j \<and> ys' ! j < int (rows b) \<and> 0 \<le> xs' ! j \<and> xs' ! j < int (cols b)"
  proof (intro allI impI)
    fix j assume "j < length vs"
    with Cons.prems(4) [rule_format, of "Suc j"] eqs b show
      "0 \<le> ys' ! j \<and> ys' ! j < int (rows b) \<and> 0 \<le> xs' ! j \<and> xs' ! j < int (cols b)"
      by simp
  qed
  have lens: "length (cells b) = rows b * cols b" "length ys' = length vs" "length xs' = length vs"
    using Cons.prems eqs b by simp_all
  from Cons.IH [OF lens rest]
  obtain a' where a': "scatter b ys' xs' vs = Inr a'" "rows a' = rows b" "cols a' = cols b"
      "length (cells a') = length (cells b)"
    and keep: "\<And>r c. r < rows b \<Longrightarrow> c < cols b \<Longrightarrow>
                 \<forall>j<length vs. (ys' ! j, xs' ! j) \<noteq> (int r, int c) \<Longrightarrow> cell a' r c = cell b r c"
    by blast
  have "cell a' r c = cell a r c"
    if "r < rows a" "c < cols a" "\<forall>j<length (v # vs). (ys ! j, xs ! j) \<noteq> (int r, int c)" for r c
  proof -
    from that(3) [rule_format, of 0] eqs have ne: "(y, x) \<noteq> (int r, int c)"
      by simp
    have "\<forall>j<length vs. (ys' ! j, xs' ! j) \<noteq> (int r, int c)"
    proof (intro allI impI)
      fix j assume "j < length vs"
      with that(3) [rule_format, of "Suc j"] eqs show "(ys' ! j, xs' ! j) \<noteq> (int r, int c)"
        by simp
    qed
    with keep that b have "cell a' r c = cell b r c"
      by simp
    also have "\<dots> = cell a r c"
    proof -
      have "nat y * cols a + nat x \<noteq> r * cols a + c"
      proof
        assume "nat y * cols a + nat x = r * cols a + c"
        with flat_index_inj [of "nat x" "cols a" c "nat y" r] rng that(2)
        have "nat y = r \<and> nat x = c" by simp
        with rng ne show False by auto
      qed
      then show ?thesis
        by (simp add: cell_def b_def)
    qed
    finally show ?thesis .
  qed
  with a' b put eqs show ?case
    by simp
qed

lemma scatter_last:
  assumes "length (cells a) = rows a * cols a"
    and "length ys = length vs" and "length xs = length vs"
    and "\<forall>j<length vs. 0 \<le> ys ! j \<and> ys ! j < int (rows a) \<and> 0 \<le> xs ! j \<and> xs ! j < int (cols a)"
    and "k < length vs"
    and "\<forall>j. k < j \<and> j < length vs \<longrightarrow> (ys ! j, xs ! j) \<noteq> (ys ! k, xs ! k)"
  shows "\<exists>a'. scatter a ys xs vs = Inr a' \<and> cell a' (nat (ys ! k)) (nat (xs ! k)) = vs ! k"
  using assms
proof (induction vs arbitrary: a ys xs k)
  case Nil
  then show ?case by simp
next
  case (Cons v vs)
  then obtain y ys' x xs' where eqs: "ys = y # ys'" "xs = x # xs'"
    by (cases ys; cases xs) auto
  from Cons.prems(4) [rule_format, of 0] eqs
  have rng: "0 \<le> y" "y < int (rows a)" "0 \<le> x" "x < int (cols a)"
    by simp_all
  define b where "b = a\<lparr> cells := (cells a)[nat y * cols a + nat x := v] \<rparr>"
  have put: "put a y x v = Inr b"
    unfolding b_def using rng by (rule put_in_range)
  have b: "rows b = rows a" "cols b = cols a" "length (cells b) = length (cells a)"
    by (simp_all add: b_def)
  have rest: "\<forall>j<length vs. 0 \<le> ys' ! j \<and> ys' ! j < int (rows b) \<and> 0 \<le> xs' ! j \<and> xs' ! j < int (cols b)"
  proof (intro allI impI)
    fix j assume "j < length vs"
    with Cons.prems(4) [rule_format, of "Suc j"] eqs b show
      "0 \<le> ys' ! j \<and> ys' ! j < int (rows b) \<and> 0 \<le> xs' ! j \<and> xs' ! j < int (cols b)"
      by simp
  qed
  have lens: "length (cells b) = rows b * cols b" "length ys' = length vs" "length xs' = length vs"
    using Cons.prems eqs b by simp_all
  show ?case
  proof (cases k)
    case 0
    have later: "\<forall>j<length vs. (ys' ! j, xs' ! j) \<noteq> (int (nat y), int (nat x))"
    proof (intro allI impI)
      fix j assume "j < length vs"
      with Cons.prems(6) [rule_format, of "Suc j"] 0 eqs rng
      show "(ys' ! j, xs' ! j) \<noteq> (int (nat y), int (nat x))"
        by simp
    qed
    from scatter_untouched [OF lens rest]
    obtain a' where a': "scatter b ys' xs' vs = Inr a'"
      and keep: "\<And>r c. r < rows b \<Longrightarrow> c < cols b \<Longrightarrow>
                 \<forall>j<length vs. (ys' ! j, xs' ! j) \<noteq> (int r, int c) \<Longrightarrow> cell a' r c = cell b r c"
      by blast
    have "nat y < rows b" "nat x < cols b"
      using rng b by simp_all
    from keep [OF this later] have "cell a' (nat y) (nat x) = cell b (nat y) (nat x)" .
    also have "\<dots> = v"
    proof -
      have "nat y * cols a + nat x < length (cells a)"
        using flat_index_less [of "nat y" "rows a" "nat x" "cols a"] rng Cons.prems(1) by simp
      then show ?thesis
        by (simp add: cell_def b_def)
    qed
    finally show ?thesis
      using a' put eqs 0 by simp
  next
    case (Suc k')
    with Cons.prems(5) have k': "k' < length vs" by simp
    have later: "\<forall>j. k' < j \<and> j < length vs \<longrightarrow> (ys' ! j, xs' ! j) \<noteq> (ys' ! k', xs' ! k')"
    proof (intro allI impI)
      fix j assume "k' < j \<and> j < length vs"
      with Cons.prems(6) [rule_format, of "Suc j"] Suc eqs
      show "(ys' ! j, xs' ! j) \<noteq> (ys' ! k', xs' ! k')"
        by simp
    qed
    from Cons.IH [OF lens rest k' later] put eqs Suc show ?thesis
      by simp
  qed
qed

subsection \<open>Scatter\<close>

text \<open>
  Claim C9. In the scatter step of \<^verbatim>\<open>process_band_file\<close>, with index arrays that lie
  within the image (as the geolocation indexer produces them), the scatter into the
  image of zeros returns, and the cell that a sample \<open>k\<close> is written to holds the value
  of that sample whenever no later sample is written to the same cell. So a cell that
  several samples map to holds the value of the last of them in the order of the arrays,
  and a cell that exactly one sample maps to holds the value of that sample.
\<close>

theorem scatter_last_write_wins:
  assumes "length ys = length vs" and "length xs = length vs"
    and "\<forall>j<length vs. 0 \<le> ys ! j \<and> ys ! j < int h \<and> 0 \<le> xs ! j \<and> xs ! j < int w"
    and "k < length vs"
    and "\<forall>j. k < j \<and> j < length vs \<longrightarrow> (ys ! j, xs ! j) \<noteq> (ys ! k, xs ! k)"
  shows "\<exists>img. scatter (np_zeros (h, w)) ys xs vs = Inr img
           \<and> cell img (nat (ys ! k)) (nat (xs ! k)) = vs ! k"
proof -
  let ?z = "np_zeros (h, w)"
  have z: "rows ?z = h" "cols ?z = w" "length (cells ?z) = rows ?z * cols ?z"
    by (simp_all add: np_zeros_def np_full_def)
  from assms(3) z have rng: "\<forall>j<length vs. 0 \<le> ys ! j \<and> ys ! j < int (rows ?z)
      \<and> 0 \<le> xs ! j \<and> xs ! j < int (cols ?z)"
    by simp
  from scatter_last [OF z(3) assms(1,2) rng assms(4,5)] show ?thesis .
qed

theorem scatter_last_write_wins_witness:
  "case scatter (np_zeros (2, 2)) [0, 1, 0] [0, 1, 0] [Fin 3, Fin 4, Fin 5] of
     Inl e \<Rightarrow> False
   | Inr img \<Rightarrow> cell img 0 0 = Fin 5 \<and> cell img 1 1 = Fin 4"
proof -
  let ?ys = "[0, 1, 0 :: int]" and ?xs = "[0, 1, 0 :: int]" and ?vs = "[Fin 3, Fin 4, Fin 5]"
  have h1: "length ?ys = length ?vs" and h2: "length ?xs = length ?vs"
    by simp_all
  have h3: "\<forall>j<length ?vs. 0 \<le> ?ys ! j \<and> ?ys ! j < int 2 \<and> 0 \<le> ?xs ! j \<and> ?xs ! j < int 2"
    by (simp add: All_less_Suc)
  have k2: "2 < length ?vs" and k1: "1 < length ?vs"
    by simp_all
  have l2: "\<forall>j. 2 < j \<and> j < length ?vs \<longrightarrow> (?ys ! j, ?xs ! j) \<noteq> (?ys ! 2, ?xs ! 2)"
    by auto
  have l1: "\<forall>j. 1 < j \<and> j < length ?vs \<longrightarrow> (?ys ! j, ?xs ! j) \<noteq> (?ys ! 1, ?xs ! 1)"
  proof (intro allI impI)
    fix j :: nat assume "1 < j \<and> j < length ?vs"
    then have "j = 2" by auto
    then show "(?ys ! j, ?xs ! j) \<noteq> (?ys ! 1, ?xs ! 1)" by simp
  qed
  from scatter_last_write_wins [OF h1 h2 h3 k2 l2] scatter_last_write_wins [OF h1 h2 h3 k1 l1]
  show ?thesis
    by auto
qed

text \<open>
  The assertion \<^verbatim>\<open>'image must be at least 2x2'\<close>: an index whose image shape has a
  dimension below 2 is turned down before the scatter.
\<close>

lemma process_band_file_scatter_small_image:
  assumes "length arr = length (lonlat_mask g)"
    and "length (x_index g) = length (mask_select arr (lonlat_mask g))"
    and "length (y_index g) = length (mask_select arr (lonlat_mask g))"
    and "fst (out_image_shape g) \<le> 1 \<or> snd (out_image_shape g) \<le> 1"
  shows "process_band_file_scatter g arr = Inl AssertionError"
  using assms by (auto simp: process_band_file_scatter_def Let_def)

section \<open>Properties of the composite assembler\<close>

lemma shape_np_full [simp]: "shape (np_full s v) = s"
  by (simp add: shape_def np_full_def)

lemma first_shape_Inr:
  assumes "\<not> list_all (\<lambda>v. v = None) arrays"
  shows "\<exists>j arr. j < length arrays \<and> arrays ! j = Some arr \<and> (\<forall>i<j. arrays ! i = None)
           \<and> first_shape arrays = Inr (shape arr)"
  using assms
proof (induction arrays rule: first_shape.induct)
  case 1
  then show ?case by simp
next
  case (2 vs)
  then obtain j arr where j: "j < length vs" "vs ! j = Some arr" "\<forall>i<j. vs ! i = None"
      "first_shape vs = Inr (shape arr)"
    by auto
  have "\<forall>i<Suc j. (None # vs) ! i = None"
    using j(3) by (auto simp: nth_Cons')
  with j show ?case
    by (intro exI [of _ "Suc j"] exI [of _ arr]) simp
next
  case (3 v vs)
  show ?case
    by (intro exI [of _ 0] exI [of _ v]) simp
qed

lemma shapes_assertion_holds:
  assumes "\<not> list_all (\<lambda>v. v = None) arrays"
  shows "card (set (map shape (List.map_filter id arrays))) \<noteq> 0"
proof -
  from assms obtain arr where "Some arr \<in> set arrays"
    by (auto simp: list_all_iff)
  then have "arr \<in> set (List.map_filter id arrays)"
    by (auto simp: map_filter_def intro!: image_eqI [of _ _ "Some arr"])
  then have "set (map shape (List.map_filter id arrays)) \<noteq> {}"
    by auto
  then show ?thesis
    by simp
qed

lemma np_full_cells:
  "length (cells (np_full s v)) = fst s * snd s \<and> (\<forall>c\<in>set (cells (np_full s v)). c = v)"
  by (simp add: np_full_def)

lemma np_array_one_shape:
  assumes "\<forall>a\<in>set arrays. shape a = s"
  shows "np_array ragged arrays = Inr arrays"
proof -
  have "set (map shape arrays) \<subseteq> {s}"
    using assms by auto
  then have "card (set (map shape arrays)) \<le> card {s}"
    by (intro card_mono) auto
  then show ?thesis
    by (simp add: np_array_def)
qed

lemma process_band_files_unfold:
  assumes "files \<noteq> []" and "card (set (map band files)) = 1"
  shows "process_band_files pbf ragged g files =
     (let arrays = map (\<lambda>file. case pbf file g of Inl e \<Rightarrow> None | Inr arr \<Rightarrow> Some arr) files
      in if list_all (\<lambda>v. v = None) arrays then Inl ProcessingException
         else (case first_shape arrays of Inl e \<Rightarrow> Inl e | Inr s \<Rightarrow>
                 np_array ragged (map (\<lambda>v. case v of None \<Rightarrow> np_full s NaN | Some arr \<Rightarrow> arr) arrays)))"
  using assms shapes_assertion_holds
  by (simp add: process_band_files_def Let_def)

subsection \<open>Substitution of failed bands\<close>

text \<open>
  Claim C2. Take a list of band descriptors that passes the two assertions at the entry
  of \<^verbatim>\<open>_process_band_files\<close> (the list is not empty and all descriptors have one band
  type: the invariant of a file set), and a rasterizer whose successful grids all have
  one shape (\<^verbatim>\<open>process_band_file\<close> allocates every grid with the image shape of the
  index). If at least one band succeeds, the assembler returns one grid per descriptor,
  in order: the grid of the band where it succeeded, and where it failed a grid that has
  the shape of the first successful band and whose cells are all NaN. If every band
  fails, it raises \<^verbatim>\<open>ProcessingException\<close>.
\<close>

theorem composite_substitutes_failed_bands:
  assumes ne: "files \<noteq> []" and one_band: "card (set (map band files)) = 1"
    and same: "\<forall>f\<in>set files. \<forall>f'\<in>set files. \<forall>a a'.
                 pbf f g = Inr a \<and> pbf f' g = Inr a' \<longrightarrow> shape a = shape a'"
  shows "((\<exists>f\<in>set files. \<exists>arr. pbf f g = Inr arr) \<longrightarrow>
            (\<exists>grids j a0. process_band_files pbf ragged g files = Inr grids
               \<and> length grids = length files
               \<and> j < length files \<and> pbf (files ! j) g = Inr a0
               \<and> (\<forall>i<j. \<exists>e. pbf (files ! i) g = Inl e)
               \<and> (\<forall>i<length files.
                     case pbf (files ! i) g of
                       Inr arr \<Rightarrow> grids ! i = arr
                     | Inl e \<Rightarrow>
                         shape (grids ! i) = shape a0
                         \<and> length (cells (grids ! i)) = rows a0 * cols a0
                         \<and> (\<forall>c\<in>set (cells (grids ! i)). isnan c))))
       \<and> ((\<forall>f\<in>set files. \<exists>e. pbf f g = Inl e) \<longrightarrow>
            process_band_files pbf ragged g files = Inl ProcessingException)"
proof (intro conjI impI)
  let ?opt = "\<lambda>file. case pbf file g of Inl e \<Rightarrow> None | Inr arr \<Rightarrow> Some arr"
  let ?arrays = "map ?opt files"
  have "?opt f = None \<longleftrightarrow> (\<exists>e. pbf f g = Inl e)" for f
    by (cases "pbf f g") simp_all
  then have all_none: "list_all (\<lambda>v. v = None) ?arrays \<longleftrightarrow> (\<forall>f\<in>set files. \<exists>e. pbf f g = Inl e)"
    by (simp add: list_all_iff)
  {
    assume "\<forall>f\<in>set files. \<exists>e. pbf f g = Inl e"
    with all_none have "list_all (\<lambda>v. v = None) ?arrays"
      by simp
    then show "process_band_files pbf ragged g files = Inl ProcessingException"
      unfolding process_band_files_unfold [OF ne one_band] Let_def by simp
  }
  {
    assume "\<exists>f\<in>set files. \<exists>arr. pbf f g = Inr arr"
    with all_none have some: "\<not> list_all (\<lambda>v. v = None) ?arrays"
      by auto
    from first_shape_Inr [OF some]
    obtain j a0 where j: "j < length files" "?arrays ! j = Some a0"
        "\<forall>i<j. ?arrays ! i = None" "first_shape ?arrays = Inr (shape a0)"
      by auto
    from j(1,2) have pj: "pbf (files ! j) g = Inr a0"
      by (auto split: sum.splits)
    have before: "\<forall>i<j. \<exists>e. pbf (files ! i) g = Inl e"
    proof (intro allI impI)
      fix i assume "i < j"
      with j(1,3) have "?opt (files ! i) = None" by simp
      then show "\<exists>e. pbf (files ! i) g = Inl e"
        by (auto split: sum.splits)
    qed
    let ?sub = "map (\<lambda>v. case v of None \<Rightarrow> np_full (shape a0) NaN | Some arr \<Rightarrow> arr) ?arrays"
    have sub_nth: "?sub ! i = (case pbf (files ! i) g of
                        Inl e \<Rightarrow> np_full (shape a0) NaN | Inr arr \<Rightarrow> arr)"
      if "i < length files" for i
      using that by (simp split: sum.splits)
    have "shape a = shape a0" if "a \<in> set ?sub" for a
    proof -
      from that have "\<exists>i<length ?sub. ?sub ! i = a"
        by (simp only: in_set_conv_nth)
      then obtain i where "i < length ?sub" and a: "a = ?sub ! i"
        by blast
      then have "i < length files"
        by simp
      note i = this a
      show ?thesis
      proof (cases "pbf (files ! i) g")
        case (Inl e)
        with i sub_nth show ?thesis by simp
      next
        case (Inr arr)
        with i sub_nth have "a = arr" by simp
        with Inr pj same i(1) j(1) show ?thesis
          by (metis nth_mem)
      qed
    qed
    then have "np_array ragged ?sub = Inr ?sub"
      by (intro np_array_one_shape) blast
    with some j(4) have res: "process_band_files pbf ragged g files = Inr ?sub"
      unfolding process_band_files_unfold [OF ne one_band] Let_def by simp
    have grid: "case pbf (files ! i) g of
                       Inr arr \<Rightarrow> ?sub ! i = arr
                     | Inl e \<Rightarrow>
                         shape (?sub ! i) = shape a0
                         \<and> length (cells (?sub ! i)) = rows a0 * cols a0
                         \<and> (\<forall>c\<in>set (cells (?sub ! i)). isnan c)"
      if "i < length files" for i
    proof (cases "pbf (files ! i) g")
      case (Inl e)
      with sub_nth [OF that] have eq: "?sub ! i = np_full (shape a0) NaN"
        by simp
      have p: "shape (np_full (shape a0) NaN) = shape a0"
        by simp
      have c: "length (cells (np_full (shape a0) NaN)) = rows a0 * cols a0
               \<and> (\<forall>c\<in>set (cells (np_full (shape a0) NaN)). isnan c)"
        by (simp add: np_full_def shape_def)
      show ?thesis
        unfolding Inl sum.case eq using p c by blast
    next
      case (Inr arr)
      with sub_nth [OF that] show ?thesis
        by simp
    qed
    from res j(1) pj before grid
    show "\<exists>grids j a0. process_band_files pbf ragged g files = Inr grids
               \<and> length grids = length files
               \<and> j < length files \<and> pbf (files ! j) g = Inr a0
               \<and> (\<forall>i<j. \<exists>e. pbf (files ! i) g = Inl e)
               \<and> (\<forall>i<length files.
                     case pbf (files ! i) g of
                       Inr arr \<Rightarrow> grids ! i = arr
                     | Inl e \<Rightarrow>
                         shape (grids ! i) = shape a0
                         \<and> length (cells (grids ! i)) = rows a0 * cols a0
                         \<and> (\<forall>c\<in>set (cells (grids ! i)). isnan c))"
      by (intro exI [of _ ?sub] exI [of _ j] exI [of _ a0]) simp
  }
qed

theorem composite_substitutes_failed_bands_witness:
  "\<exists>grids. process_band_files sample_pbf sample_ragged sample_geoloc
       [band_file ''SVI01.h5'' ''I'', band_file ''SVI02.h5'' ''I'', band_file ''SVI03.h5'' ''I'']
       = Inr grids
     \<and> length grids = 3
     \<and> grids ! 0 = np_full (2, 2) (Fin 1)
     \<and> shape (grids ! 1) = (2, 2)
     \<and> length (cells (grids ! 1)) = 4
     \<and> list_all isnan (cells (grids ! 1))
     \<and> grids ! 2 = np_full (2, 2) (Fin 1)"
proof -
  let ?files = "[band_file ''SVI01.h5'' ''I'', band_file ''SVI02.h5'' ''I'',
                 band_file ''SVI03.h5'' ''I'']"
  have ok: "a = np_full (2, 2) (Fin 1)" if "sample_pbf f sample_geoloc = Inr a" for f a
    using that by (simp add: sample_pbf_def split: if_splits)
  have h1: "?files \<noteq> []"
    by simp
  have h2: "card (set (map band ?files)) = 1"
    by (simp add: band_file_def)
  have h3: "\<forall>f\<in>set ?files. \<forall>f'\<in>set ?files. \<forall>a a'.
              sample_pbf f sample_geoloc = Inr a \<and> sample_pbf f' sample_geoloc = Inr a'
              \<longrightarrow> shape a = shape a'"
    using ok by blast
  have p0: "sample_pbf (?files ! 0) sample_geoloc = Inr (np_full (2, 2) (Fin 1))"
    and p1: "sample_pbf (?files ! 1) sample_geoloc = Inl CorruptedFile"
    and p2: "sample_pbf (?files ! 2) sample_geoloc = Inr (np_full (2, 2) (Fin 1))"
    by (simp_all add: sample_pbf_def band_file_def)
  have some: "\<exists>f\<in>set ?files. \<exists>arr. sample_pbf f sample_geoloc = Inr arr"
    using p0 by auto
  from composite_substitutes_failed_bands
    [where pbf = sample_pbf and g = sample_geoloc and ragged = sample_ragged, OF h1 h2 h3] some
  obtain grids j a0 where res: "process_band_files sample_pbf sample_ragged sample_geoloc ?files
        = Inr grids"
    and len: "length grids = length ?files"
    and a0: "sample_pbf (?files ! j) sample_geoloc = Inr a0"
    and each: "\<forall>i<length ?files.
                 case sample_pbf (?files ! i) sample_geoloc of
                   Inr arr \<Rightarrow> grids ! i = arr
                 | Inl e \<Rightarrow>
                     shape (grids ! i) = shape a0
                     \<and> length (cells (grids ! i)) = rows a0 * cols a0
                     \<and> (\<forall>c\<in>set (cells (grids ! i)). isnan c)"
    by blast
  from ok [OF a0] have s0: "shape a0 = (2, 2)" "rows a0 = 2" "cols a0 = 2"
    by (simp_all add: np_full_def shape_def)
  from each [rule_format, of 0] p0 have g0: "grids ! 0 = np_full (2, 2) (Fin 1)"
    by simp
  from each [rule_format, of 2] p2 have g2: "grids ! 2 = np_full (2, 2) (Fin 1)"
    by simp
  from each [rule_format, of 1] p1 s0
  have g1: "shape (grids ! 1) = (2, 2)" "length (cells (grids ! 1)) = 4"
      "list_all isnan (cells (grids ! 1))"
    by (simp_all add: list_all_iff)
  from res len g0 g1 g2 show ?thesis
    by simp
qed

subsection \<open>The assertion on the shapes\<close>

text \<open>
  Once the list has passed the entry assertions and one band has succeeded, the
  assembler itself raises no \<^verbatim>\<open>AssertionError\<close>: the set of shapes is not empty, and
  that is all \<^verbatim>\<open>assert len(set(...))\<close> asks for.
\<close>

lemma shapes_assertion_never_fails:
  assumes "files \<noteq> []" and "card (set (map band files)) = 1"
    and "\<exists>f\<in>set files. \<exists>arr. pbf f g = Inr arr"
    and "\<forall>arrays. ragged arrays \<noteq> Inl AssertionError"
  shows "process_band_files pbf ragged g files \<noteq> Inl AssertionError"
proof -
  let ?opt = "\<lambda>file. case pbf file g of Inl e \<Rightarrow> None | Inr arr \<Rightarrow> Some arr"
  let ?arrays = "map ?opt files"
  from assms(3) obtain f arr where "f \<in> set files" "?opt f = Some arr"
    by force
  then have some: "\<not> list_all (\<lambda>v. v = None) ?arrays"
    by (auto simp: list_all_iff)
  from first_shape_Inr [OF some] obtain s where s: "first_shape ?arrays = Inr s"
    by blast
  show ?thesis
    unfolding process_band_files_unfold [OF assms(1,2)] Let_def using some s assms(4)
    by (simp add: np_array_def)
qed

section \<open>Properties of the batch driver\<close>

lemma called_append: "called (evs @ evs') = called evs @ called evs'"
  by (induction evs rule: called.induct) simp_all

lemma called_emit:
  "called (events (emit st ev)) =
     called (events st) @ (case ev of CallProcessFileset fs \<Rightarrow> [fs] | _ \<Rightarrow> [])"
  by (cases ev) (simp_all add: emit_def called_append)

lemma events_add_fileset [simp]: "events (add_fileset st fs) = events st"
  by (simp add: add_fileset_def)

lemma has_fileset_emit [simp]: "has_fileset (emit st ev) fs = has_fileset st fs"
  by (simp add: has_fileset_def emit_def)

lemma has_fileset_add_fileset: "has_fileset st fs \<Longrightarrow> has_fileset (add_fileset st fs') fs"
  by (simp add: has_fileset_def add_fileset_def)

lemma process_loop_called:
  "called (events (snd (process_loop work st filesets))) =
     called (events st) @ reached work filesets"
proof (induction filesets arbitrary: st)
  case Nil
  then show ?case by simp
next
  case (Cons fs filesets)
  show ?case
  proof (cases "work fs")
    case None
    then show ?thesis
      by (simp add: Cons.IH process_fileset_def Let_def called_emit)
  next
    case (Some e)
    then show ?thesis
      by (simp add: process_fileset_def Let_def called_emit)
  qed
qed

lemma process_loop_events_mono:
  "set (events st) \<subseteq> set (events (snd (process_loop work st filesets)))"
proof (induction filesets arbitrary: st)
  case Nil
  then show ?case by simp
next
  case (Cons fs filesets)
  let ?st1 = "if has_fileset st fs then emit st (LogAlreadyInDb fs) else st"
  let ?st2 = "add_fileset (emit ?st1 (CallProcessFileset fs)) fs"
  have "set (events st) \<subseteq> set (events ?st2)"
    by (auto simp: emit_def)
  also have "\<dots> \<subseteq> set (events (snd (process_loop work ?st2 filesets)))"
    by (rule Cons.IH)
  finally have step: "set (events st) \<subseteq> set (events (snd (process_loop work ?st2 filesets)))" .
  show ?case
  proof (cases "work fs")
    case None
    with step show ?thesis
      by (simp add: process_fileset_def Let_def)
  next
    case (Some e)
    then show ?thesis
      by (auto simp: process_fileset_def Let_def emit_def)
  qed
qed

lemma process_loop_already_logged:
  assumes "has_fileset st fs" and "fs \<in> set (reached work filesets)"
  shows "LogAlreadyInDb fs \<in> set (events (snd (process_loop work st filesets)))"
  using assms
proof (induction filesets arbitrary: st)
  case Nil
  then show ?case by simp
next
  case (Cons f filesets)
  let ?st1 = "if has_fileset st f then emit st (LogAlreadyInDb f) else st"
  let ?st2 = "add_fileset (emit ?st1 (CallProcessFileset f)) f"
  show ?case
  proof (cases "fs = f")
    case True
    with Cons.prems(1) have logged: "LogAlreadyInDb fs \<in> set (events ?st1)"
      by (simp add: emit_def)
    show ?thesis
    proof (cases "work f")
      case None
      from logged have "LogAlreadyInDb fs \<in> set (events ?st2)"
        by (simp add: emit_def)
      with process_loop_events_mono [of ?st2 work filesets] None show ?thesis
        by (auto simp: process_fileset_def Let_def)
    next
      case (Some e)
      with logged show ?thesis
        by (simp add: process_fileset_def Let_def emit_def)
    qed
  next
    case False
    with Cons.prems(2) have w: "work f = None" and r: "fs \<in> set (reached work filesets)"
      by (auto split: if_splits)
    have "has_fileset ?st2 fs"
      using Cons.prems(1) by (intro has_fileset_add_fileset) simp
    from Cons.IH [OF this r] w show ?thesis
      by (simp add: process_fileset_def Let_def)
  qed
qed

lemma process_recent_files_events:
  "events (process_recent_files work now filesets st) =
     events (snd (process_loop work
       (if 0 < length filesets then emit st (LogFound (length filesets)) else emit st LogNotFound)
       filesets))"
  by (simp add: process_recent_files_def Let_def split: prod.splits bool.splits)

lemma reached_all: "\<forall>fs\<in>set filesets. work fs = None \<Longrightarrow> reached work filesets = filesets"
  by (induction filesets) simp_all

text \<open>
  Claim C10, as amended. The claim has \<^verbatim>\<open>_process_fileset\<close> called on every file set
  that \<^verbatim>\<open>find_filesets\<close> returned; the first call that raises ends the run, and the
  file sets after it are not processed. What holds: in a run of
  \<^verbatim>\<open>process_recent_files\<close> the calls of \<^verbatim>\<open>_process_fileset\<close> are, in order, the file sets
  that the run reaches, whatever the store records: those up to and including the first
  one whose processing raises, and all of them when no processing raises. For a reached
  file set that the store already records as processed, the message is logged and
  \<^verbatim>\<open>_process_fileset\<close> is called all the same: the test of \<^verbatim>\<open>has_fileset\<close> skips nothing.
\<close>

theorem recorded_filesets_are_processed_again:
  "called (events (process_recent_files work now filesets st))
     = called (events st) @ reached work filesets
   \<and> ((\<forall>fs\<in>set filesets. work fs = None) \<longrightarrow> reached work filesets = filesets)
   \<and> (\<forall>fs\<in>set (reached work filesets). has_fileset st fs \<longrightarrow>
         LogAlreadyInDb fs \<in> set (events (process_recent_files work now filesets st))
         \<and> fs \<in> set (called (events (process_recent_files work now filesets st))))"
proof -
  let ?st0 = "if 0 < length filesets then emit st (LogFound (length filesets))
              else emit st LogNotFound"
  have c0: "called (events ?st0) = called (events st)"
    by (simp add: called_emit)
  have calls: "called (events (process_recent_files work now filesets st))
                 = called (events st) @ reached work filesets"
    unfolding process_recent_files_events process_loop_called c0 ..
  have logged: "LogAlreadyInDb fs \<in> set (events (process_recent_files work now filesets st))"
    if "fs \<in> set (reached work filesets)" "has_fileset st fs" for fs
  proof -
    from that(2) have "has_fileset ?st0 fs" by simp
    from process_loop_already_logged [OF this that(1)] show ?thesis
      unfolding process_recent_files_events .
  qed
  from calls logged reached_all [of filesets work] show ?thesis
    by auto
qed

theorem recorded_filesets_are_processed_again_witness:
  "has_fileset sample_store (sample_fileset ''SVI01.h5'')
   \<and> called (events (process_recent_files sample_work 5
        [sample_fileset ''SVI01.h5'', sample_fileset ''SVI03.h5''] sample_store))
     = [sample_fileset ''SVI01.h5'']
   \<and> LogAlreadyInDb (sample_fileset ''SVI01.h5'')
       \<in> set (events (process_recent_files sample_work 5
            [sample_fileset ''SVI01.h5'', sample_fileset ''SVI03.h5''] sample_store))"
proof -
  let ?fss = "[sample_fileset ''SVI01.h5'', sample_fileset ''SVI03.h5'']"
  have has: "has_fileset sample_store (sample_fileset ''SVI01.h5'')"
    by (simp add: has_fileset_def sample_store_def)
  have r: "reached sample_work ?fss = [sample_fileset ''SVI01.h5'']"
    by (simp add: sample_work_def)
  have ev0: "called (events sample_store) = []"
    by (simp add: sample_store_def)
  from recorded_filesets_are_processed_again [of sample_work 5 ?fss sample_store]
  have c: "called (events (process_recent_files sample_work 5 ?fss sample_store))
              = called (events sample_store) @ reached sample_work ?fss"
    and l: "\<forall>fs\<in>set (reached sample_work ?fss). has_fileset sample_store fs \<longrightarrow>
         LogAlreadyInDb fs \<in> set (events (process_recent_files sample_work 5 ?fss sample_store))"
    by blast+
  from l r has
  have "LogAlreadyInDb (sample_fileset ''SVI01.h5'')
          \<in> set (events (process_recent_files sample_work 5 ?fss sample_store))"
    by simp
  with has c r ev0 show ?thesis
    by simp
qed

text \<open>
  Two file sets and a processing that raises: \<^verbatim>\<open>_process_fileset\<close> is called on the
  first, the run ends, and the second file set, though \<^verbatim>\<open>find_filesets\<close> returned it, is
  never processed.
\<close>

theorem unreached_fileset_counterexample:
  "sample_fileset ''SVI03.h5'' \<in> set [sample_fileset ''SVI01.h5'', sample_fileset ''SVI03.h5'']
   \<and> sample_fileset ''SVI03.h5''
       \<notin> set (called (events (process_recent_files sample_work 5
            [sample_fileset ''SVI01.h5'', sample_fileset ''SVI03.h5''] sample_store)))"
  by code_simp

end
